theory Spec2Isabelle
  imports Complex_Main "HOL-Library.Multiset"
begin

section \<open>JavaScript values used by the handlers\<close>

text \<open>
  Strings are \<open>string\<close>; an attribute that may be absent (\<open>undefined\<close> or \<open>null\<close>)
  is an \<open>option\<close>. The handlers test most attributes for truthiness: a string is truthy
  when it is not empty, a number when it is not zero.
\<close>

type_synonym timestamp = int
  \<comment> \<open>milliseconds since the epoch, the value of \<open>Date.getTime()\<close>\<close>

datatype date = InvalidDate | Date timestamp
  \<comment> \<open>\<open>new Date(s)\<close> for a stored string \<open>s\<close>: a time, or Invalid Date (every comparison false)\<close>

definition toLowerCase :: "string \<Rightarrow> string" where
  "toLowerCase s =
     map (\<lambda>c. let n = (of_char c :: nat) in if 65 \<le> n \<and> n \<le> 90 then char_of (n + 32) else c) s"

definition isSpace :: "char \<Rightarrow> bool" where
  "isSpace c = (of_char c \<in> {9, 10, 11, 12, 13, 32 :: nat})"

definition trim :: "string \<Rightarrow> string" where
  "trim s = rev (dropWhile isSpace (rev (dropWhile isSpace s)))"

section \<open>Shareable links\<close>

subsection \<open>The stored link and the link store\<close>

text \<open>
  The item \<open>createShareableLink\<close> writes under the key \<open>LINK#id\<close> of the partition
  \<open>SHAREABLE_LINKS\<close>. Timestamps of the item and its free-form metadata play no part in
  resolution and live in the record's extension. \<open>maxUses\<close> and \<open>currentUses\<close> are
  JavaScript numbers: the code never asks that they be whole, so they are rationals here
  (the finite numbers; a use counter stays far below the range where adding one rounds).
\<close>

record shareableLink =
  linkId :: string
  resourceType :: string
  resourceId :: string
  linkType :: string
  isPublic :: bool
  password :: "string option"
  expiresAt :: "date option"
  maxUses :: "rat option"
  currentUses :: rat
  createdBy :: string
  isActive :: bool

type_synonym linkStore = "string \<rightharpoonup> shareableLink"

datatype http_error = HttpError nat string
  \<comment> \<open>status code and message of a failed response\<close>

text \<open>
  \<open>AwsStorage.getShareableLink\<close>, with its object literal \<open>linkData\<close> as a function of
  the item read: an unusable id reads as no link; the item's optional
  attributes are normalised by truthiness (an empty password and a zero \<open>maxUses\<close> read as
  \<open>null\<close>); an item whose id or resource id is unusable throws, which the method catches
  and turns into \<open>null\<close>.
\<close>

definition linkData :: "string \<Rightarrow> shareableLink \<Rightarrow> shareableLink" where
  "linkData safeId item = item
     \<lparr> linkId := (if linkId item = [] then safeId else linkId item),
       resourceType := toLowerCase (if resourceType item = [] then ''file'' else resourceType item),
       linkType := toLowerCase (if linkType item = [] then ''view'' else linkType item),
       password := (case password item of None \<Rightarrow> None
                    | Some p \<Rightarrow> if p = [] then None else Some p),
       maxUses := (case maxUses item of None \<Rightarrow> None
                   | Some m \<Rightarrow> if m = 0 then None else Some m),
       createdBy := (if createdBy item = [] then ''system'' else createdBy item) \<rparr>"

definition getShareableLink :: "linkStore \<Rightarrow> string \<Rightarrow> shareableLink option" where
  "getShareableLink st safeId =
     (if safeId = [] \<or> safeId = ''undefined'' \<or> safeId = ''null'' then None
      else case st safeId of
        None \<Rightarrow> None
      | Some item \<Rightarrow>
          if linkId (linkData safeId item) = [] \<or> linkId (linkData safeId item) = ''undefined''
          then None
          else if resourceId (linkData safeId item) = []
                  \<or> resourceId (linkData safeId item) = ''undefined''
          then None
          else Some (linkData safeId item))"

text \<open>
  \<open>AwsStorage.updateShareableLink\<close> as the access routes call it: one \<open>SET\<close> of
  \<open>currentUses\<close> on the item (the routes call it only after the item was read).
\<close>

definition updateShareableLink :: "linkStore \<Rightarrow> string \<Rightarrow> rat \<Rightarrow> linkStore" where
  "updateShareableLink st safeId uses =
     (case st safeId of
        None \<Rightarrow> st
      | Some item \<Rightarrow> st(safeId \<mapsto> item\<lparr>currentUses := uses\<rparr>))"

subsection \<open>Creating a link\<close>

text \<open>
  \<open>AwsStorage.createShareableLink\<close>, with its object literal \<open>sanitizedLink\<close> as a
  function of the descriptor. The descriptor is read as a link record whose
  \<open>linkId\<close> and \<open>currentUses\<close> are ignored: the id is the freshly generated one and the
  counter starts at zero. The method returns \<open>sanitizedLink\<close> and stores its serialised
  form.
\<close>

definition sanitizedLink :: "string \<Rightarrow> shareableLink \<Rightarrow> shareableLink" where
  "sanitizedLink newId d = d
     \<lparr> linkId := newId,
       resourceType := toLowerCase (if resourceType d = [] then ''file'' else resourceType d),
       linkType := toLowerCase (if linkType d = [] then ''view'' else linkType d),
       password := (case password d of None \<Rightarrow> None
                    | Some p \<Rightarrow> if p = [] then None else Some (trim p)),
       maxUses := (case maxUses d of None \<Rightarrow> None
                   | Some m \<Rightarrow> if m = 0 then None else Some m),
       currentUses := 0,
       createdBy := trim (if createdBy d = [] then ''system'' else createdBy d) \<rparr>"

definition serializeLink :: "shareableLink \<Rightarrow> shareableLink" where
  "serializeLink l = l
     \<lparr> linkId := trim (linkId l),
       resourceType := trim (resourceType l),
       resourceId := trim (resourceId l),
       linkType := trim (linkType l),
       password := (case password l of None \<Rightarrow> None
                    | Some p \<Rightarrow> if trim p = [] then None else Some (trim p)),
       createdBy := trim (createdBy l) \<rparr>"
  \<comment> \<open>\<open>serializeForDynamoDB\<close> on the item: strings trimmed, an empty one dropped\<close>

definition createShareableLink ::
  "linkStore \<Rightarrow> string \<Rightarrow> shareableLink \<Rightarrow> http_error + (shareableLink \<times> linkStore)" where
  "createShareableLink st newId d =
     (if resourceId (sanitizedLink newId d) = [] \<or> resourceId (sanitizedLink newId d) = ''undefined''
         \<or> resourceId (sanitizedLink newId d) = ''null''
      then Inl (HttpError 500 ''Valid resource ID is required'')
      else if resourceType (sanitizedLink newId d) = ''file''
              \<or> resourceType (sanitizedLink newId d) = ''folder''
      then Inr (sanitizedLink newId d, st(newId \<mapsto> serializeLink (sanitizedLink newId d)))
      else Inl (HttpError 500 ''Valid resource type (file or folder) is required''))"

subsection \<open>The two public access routes\<close>

definition isExpired :: "shareableLink \<Rightarrow> timestamp \<Rightarrow> bool" where
  "isExpired link now =
     (case expiresAt link of
        None \<Rightarrow> False
      | Some InvalidDate \<Rightarrow> False
      | Some (Date t) \<Rightarrow> t < now)"

definition usageExceeded :: "shareableLink \<Rightarrow> bool" where
  "usageExceeded link =
     (case maxUses link of
        None \<Rightarrow> False
      | Some m \<Rightarrow> if m = 0 then False else m \<le> currentUses link)"

definition passwordRejected :: "shareableLink \<Rightarrow> string option \<Rightarrow> bool" where
  "passwordRejected link supplied =
     (case password link of
        None \<Rightarrow> False
      | Some p \<Rightarrow> if p = [] then False else supplied \<noteq> Some p)"

record sharedLinkResponse =
  resp_id :: string
  resp_resourceType :: string
  resp_resourceId :: string
  resp_linkType :: string
  resp_isPublic :: bool
  resp_expiresAt :: "date option"
  resp_maxUses :: "rat option"
  resp_currentUses :: rat

text \<open>\<open>app.get('/api/shared-link/:linkId')\<close>: the response and the store it leaves.\<close>

definition sharedLinkApi ::
  "linkStore \<Rightarrow> timestamp \<Rightarrow> string \<Rightarrow> string option
     \<Rightarrow> (http_error + sharedLinkResponse) \<times> linkStore" where
  "sharedLinkApi st now safeLinkId supplied =
     (if safeLinkId = [] \<or> safeLinkId = ''undefined''
      then (Inl (HttpError 400 ''Invalid link ID''), st)
      else case getShareableLink st safeLinkId of
        None \<Rightarrow> (Inl (HttpError 404 ''Link not found or inactive''), st)
      | Some link \<Rightarrow>
          if \<not> isActive link then (Inl (HttpError 404 ''Link not found or inactive''), st)
          else if isExpired link now then (Inl (HttpError 410 ''Link has expired''), st)
          else if usageExceeded link then (Inl (HttpError 410 ''Link usage limit exceeded''), st)
          else if passwordRejected link supplied then (Inl (HttpError 401 ''Password required''), st)
          else (Inr \<lparr> resp_id = linkId link,
                      resp_resourceType = resourceType link,
                      resp_resourceId = resourceId link,
                      resp_linkType = linkType link,
                      resp_isPublic = isPublic link,
                      resp_expiresAt = expiresAt link,
                      resp_maxUses = maxUses link,
                      resp_currentUses = currentUses link + 1 \<rparr>,
                updateShareableLink st safeLinkId (currentUses link + 1)))"

datatype browserResponse = Redirect string | SharedView string
  \<comment> \<open>a redirect to the download URL, or the shared-view page for a File or a Folder\<close>

text \<open>\<open>app.get('/s/:linkId')\<close>: the same checks but for the password, which it never reads.\<close>

definition sharedLinkBrowser ::
  "linkStore \<Rightarrow> timestamp \<Rightarrow> string \<Rightarrow> (http_error + browserResponse) \<times> linkStore" where
  "sharedLinkBrowser st now safeLinkId =
     (if safeLinkId = [] \<or> safeLinkId = ''undefined''
      then (Inl (HttpError 400 ''Invalid link ID''), st)
      else case getShareableLink st safeLinkId of
        None \<Rightarrow> (Inl (HttpError 404 ''Link not found or inactive''), st)
      | Some link \<Rightarrow>
          if \<not> isActive link then (Inl (HttpError 404 ''Link not found or inactive''), st)
          else if isExpired link now then (Inl (HttpError 410 ''Link has expired''), st)
          else if usageExceeded link then (Inl (HttpError 410 ''Link usage limit exceeded''), st)
          else if linkType link = ''download'' \<and> resourceType link = ''file''
          then (Inr (Redirect (''/api/files/'' @ resourceId link @ ''/download'')),
                updateShareableLink st safeLinkId (currentUses link + 1))
          else (Inr (SharedView (if resourceType link = ''file'' then ''File'' else ''Folder'')),
                updateShareableLink st safeLinkId (currentUses link + 1)))"

text \<open>A sequence of accesses, one after the other, each on the store the previous one left.\<close>

datatype access = ApiAccess timestamp string "string option" | BrowserAccess timestamp string

fun runAccess :: "linkStore \<Rightarrow> access \<Rightarrow> linkStore" where
  "runAccess st (ApiAccess now i supplied) = snd (sharedLinkApi st now i supplied)"
| "runAccess st (BrowserAccess now i) = snd (sharedLinkBrowser st now i)"

fun runAccesses :: "linkStore \<Rightarrow> access list \<Rightarrow> linkStore" where
  "runAccesses st [] = st"
| "runAccesses st (a # as) = runAccesses (runAccess st a) as"

text \<open>The use-counter bound of one link, as the link reads back from the store.\<close>

definition usesWithinBound :: "linkStore \<Rightarrow> string \<Rightarrow> bool" where
  "usesWithinBound st i =
     (case getShareableLink st i of
        None \<Rightarrow> True
      | Some link \<Rightarrow> (case maxUses link of None \<Rightarrow> True | Some m \<Rightarrow> currentUses link \<le> m))"

text \<open>
  A number is whole when it is an integer, and a link counts whole uses when its counter
  and its \<open>maxUses\<close>, if set, are whole.
\<close>

definition isWhole :: "rat \<Rightarrow> bool" where
  "isWhole x = (of_int \<lfloor>x\<rfloor> = x)"

definition countsWholeUses :: "linkStore \<Rightarrow> string \<Rightarrow> bool" where
  "countsWholeUses st i =
     (case getShareableLink st i of
        None \<Rightarrow> True
      | Some link \<Rightarrow>
          isWhole (currentUses link)
          \<and> (case maxUses link of None \<Rightarrow> True | Some m \<Rightarrow> isWhole m))"

section \<open>Files, folders and their lifecycle\<close>

text \<open>
  The handlers are modelled as functions from the store to a response and the store they
  leave: one call runs at a time, a read sees every earlier write, and a scan returns the
  whole partition. A store call that throws is modelled only where a claim speaks of it
  (the background status update). The clock is an argument.
\<close>

subsection \<open>Records\<close>

datatype deletionStatus = Active | Deleted | PermanentlyDeleted
  \<comment> \<open>\<open>deletionStatusEnum\<close>: "active", "deleted", "permanently_deleted"; an item without the
      attribute has the schema's default, "active"\<close>

text \<open>The soft-delete attributes, which file records and the items of the raw table carry.\<close>

record lifecycle =
  deletionStatus :: deletionStatus
  deletedAt :: "timestamp option"
  deletedBy :: "string option"
  scheduledDeletionAt :: "timestamp option"
  updatedAt :: timestamp

text \<open>
  A file record, and also the descriptor \<open>fileData\<close> of an upload (whose id and lifecycle
  attributes are not read). An absent string attribute is the empty string, which the
  code's truthiness tests treat alike. Size, content type and storage path take no part
  in versioning or trash and are left out.
\<close>

record File = lifecycle +
  fileId :: int
  name :: string
  originalName :: string
  version :: string
  status :: string
  projectId :: "int option"
  taskId :: "int option"
  parentFolderId :: "string option"
  createdAt :: timestamp

datatype storageType = AwsStorage | MemStorage
  \<comment> \<open>what \<open>StorageFactory.createStorage\<close> returns; the handlers branch on its class name\<close>

subsection \<open>The storage interface on files\<close>

text \<open>
  The files of the store in scan order (the partition \<open>FILES\<close> of the table, or the map of
  \<open>MemStorage\<close>), one record per id.
\<close>

fun getFile :: "File list \<Rightarrow> int \<Rightarrow> File option" where
  "getFile [] i = None"
| "getFile (f # fs) i = (if fileId f = i then Some f else getFile fs i)"

definition putFile :: "File list \<Rightarrow> File \<Rightarrow> File list" where
  "putFile store item =
     (if fileId item \<in> set (map fileId store)
      then map (\<lambda>f. if fileId f = fileId item then item else f) store
      else store @ [item])"

text \<open>
  \<open>updateFile\<close> of both stores: the record merged with the updates and a fresh
  \<open>updatedAt\<close>, written back. The updates are the function that overwrites the attributes
  they name. \<open>AwsStorage\<close> first refuses an id that is not positive; both throw on a
  missing record. (\<open>AwsStorage\<close> writes the serialised copy, its strings trimmed; the
  strings of a stored record are trimmed already.)
\<close>

definition updateFile ::
  "storageType \<Rightarrow> File list \<Rightarrow> timestamp \<Rightarrow> int \<Rightarrow> (File \<Rightarrow> File)
     \<Rightarrow> string + (File \<times> File list)" where
  "updateFile storage store now i updates =
     (if storage = AwsStorage \<and> i \<le> 0 then Inl ''Failed to update file''
      else case getFile store i of
        None \<Rightarrow> Inl (if storage = AwsStorage then ''Failed to update file'' else ''File not found'')
      | Some existing \<Rightarrow>
          Inr ((updates existing)\<lparr>updatedAt := now\<rparr>,
               putFile store ((updates existing)\<lparr>updatedAt := now\<rparr>)))"

subsection \<open>Version manager\<close>

definition jsString :: "string option \<Rightarrow> string" where
  "jsString v = (case v of None \<Rightarrow> ''undefined'' | Some s \<Rightarrow> s)"
  \<comment> \<open>\<open>String(v)\<close> for a string that may be \<open>undefined\<close>\<close>

definition truthyNumber :: "int option \<Rightarrow> int option" where
  "truthyNumber v = (case v of None \<Rightarrow> None | Some n \<Rightarrow> if n = 0 then None else Some n)"
  \<comment> \<open>\<open>v ? Number(v) : undefined\<close>\<close>

definition truthyString :: "string option \<Rightarrow> string option" where
  "truthyString v = (case v of None \<Rightarrow> None | Some s \<Rightarrow> if s = [] then None else Some s)"
  \<comment> \<open>\<open>v ? String(v) : undefined\<close>\<close>

text \<open>
  \<open>AwsStorage.getFilesByOriginalName\<close>: the scan by original name, then the filters in
  the order of the source. A scope argument that is \<open>undefined\<close> filters nothing.
\<close>

definition getFilesByOriginalName ::
  "File list \<Rightarrow> string \<Rightarrow> int option \<Rightarrow> int option \<Rightarrow> string option \<Rightarrow> File list" where
  "getFilesByOriginalName store oname pid tid folderArg =
     filter (\<lambda>f. case folderArg of None \<Rightarrow> True | Some d \<Rightarrow> jsString (parentFolderId f) = d)
       (filter (\<lambda>f. case tid of None \<Rightarrow> True | Some t \<Rightarrow> taskId f = Some t)
         (filter (\<lambda>f. case pid of None \<Rightarrow> True | Some p \<Rightarrow> projectId f = Some p)
           (filter (\<lambda>f. deletionStatus f \<noteq> Deleted)
             (filter (\<lambda>f. originalName f = oname) store))))"

fun showNat :: "nat \<Rightarrow> string" where
  "showNat n =
     (if n < 10 then [char_of (48 + n)] else showNat (n div 10) @ [char_of (48 + n mod 10)])"
  \<comment> \<open>the decimal digits of a number, as a template literal prints it\<close>

declare showNat.simps [simp del]

text \<open>
  \<open>AwsStorage.handleFileVersioning\<close>: the descriptor with its version and status set, and
  the ids the background task will mark superseded, in order.
\<close>

definition handleFileVersioning :: "File list \<Rightarrow> timestamp \<Rightarrow> File \<Rightarrow> File \<times> int list" where
  "handleFileVersioning store now newFileData =
     (let d = newFileData
            \<lparr> version := (if version newFileData = [] then ''1.0'' else version newFileData),
              status := (if status newFileData = [] then ''Current'' else status newFileData) \<rparr>
      in if originalName d = [] then (d, [])
         else
           let existingFiles = getFilesByOriginalName store (originalName d)
                 (truthyNumber (projectId d)) (truthyNumber (taskId d))
                 (truthyString (parentFolderId d));
               activeFiles = filter (\<lambda>f. deletionStatus f \<noteq> Deleted) existingFiles
           in if length activeFiles = 0
              then (d\<lparr>version := ''1.0'', status := ''Current'', createdAt := now\<rparr>, [])
              else (d\<lparr>version := showNat (length activeFiles + 1) @ ''.0'', status := ''Current''\<rparr>,
                    map fileId activeFiles))"

text \<open>
  \<open>AwsStorage.updateFileStatus\<close>: one \<open>SET\<close> of the status on the item. When the store
  call throws (\<open>sendFails\<close>) the method logs and returns normally, the item unchanged.
\<close>

definition updateFileStatus ::
  "(int \<Rightarrow> bool) \<Rightarrow> File list \<Rightarrow> timestamp \<Rightarrow> int \<Rightarrow> string \<Rightarrow> File list" where
  "updateFileStatus sendFails store now i newStatus =
     (if sendFails i then store
      else map (\<lambda>f. if fileId f = i then f\<lparr>status := newStatus, updatedAt := now\<rparr> else f) store)"

text \<open>The callback handed to \<open>setImmediate\<close>: every previous version in turn.\<close>

fun supersedeInBackground ::
  "(int \<Rightarrow> bool) \<Rightarrow> File list \<Rightarrow> timestamp \<Rightarrow> int list \<Rightarrow> File list" where
  "supersedeInBackground sendFails store now [] = store"
| "supersedeInBackground sendFails store now (i # ids) =
     supersedeInBackground sendFails (updateFileStatus sendFails store now i ''Superseded'') now ids"

text \<open>
  \<open>AwsStorage.createFile\<close>: the id is the clock's value; the item carries no
  \<open>deletionStatus\<close>; the serialiser trims its strings. It returns the record, the store
  after the \<open>PutItem\<close>, and the ids left to the background task.
\<close>

definition createFile :: "File list \<Rightarrow> timestamp \<Rightarrow> File \<Rightarrow> File \<times> File list \<times> int list" where
  "createFile store now fileData =
     (let (d, pending) = handleFileVersioning store now fileData;
          item = \<lparr> deletionStatus = Active, deletedAt = None, deletedBy = None,
                   scheduledDeletionAt = None, updatedAt = now,
                   fileId = now,
                   name = trim (name d),
                   originalName = trim (if originalName d = [] then name d else originalName d),
                   version = trim (if version d = [] then ''1.0'' else version d),
                   status = trim (if status d = [] then ''Current'' else status d),
                   projectId = truthyNumber (projectId d),
                   taskId = truthyNumber (taskId d),
                   parentFolderId = (case truthyString (parentFolderId d) of
                                       None \<Rightarrow> None
                                     | Some s \<Rightarrow> if trim s = [] then None else Some (trim s)),
                   createdAt = now \<rparr>
      in (item\<lparr>name := (if originalName item = []
                         then (if name item = [] then ''undefined'' else name item)
                         else originalName item)\<rparr>,
          putFile store item, pending))"

subsection \<open>Listing the versions\<close>

definition isDigit :: "char \<Rightarrow> bool" where
  "isDigit c = (48 \<le> (of_char c :: nat) \<and> (of_char c :: nat) \<le> 57)"

text \<open>
  A JavaScript number: NaN, an infinity, or a finite double, which is a rational.
\<close>

datatype number = NaN | MinusInfinity | Num rat | PlusInfinity

text \<open>
  The builtin \<open>parseFloat\<close> is no part of the program. The functions that call it take it
  as their parameter \<open>parseFloat\<close>, a function from strings to numbers: what is proved of
  them holds whatever number the builtin reads from a string.
\<close>

fun removeFirst :: "char \<Rightarrow> string \<Rightarrow> string" where
  "removeFirst c [] = []"
| "removeFirst c (x # xs) = (if x = c then xs else x # removeFirst c xs)"
  \<comment> \<open>\<open>s.replace(c, '')\<close> for a one-character pattern\<close>

definition versionNumber :: "(string \<Rightarrow> number) \<Rightarrow> File \<Rightarrow> number" where
  "versionNumber parseFloat f =
     parseFloat (removeFirst CHR ''v'' (if version f = [] then ''1.0'' else version f))"

text \<open>
  What \<open>Array.prototype.sort\<close> reads of the comparator's result \<open>x - y\<close>: its sign. The
  difference of two finite doubles has the sign of their exact difference; a difference
  that is NaN (an operand is NaN, or both are the same infinity) counts as 0.
\<close>

fun differenceSign :: "number \<Rightarrow> number \<Rightarrow> int" where
  "differenceSign NaN y = 0"
| "differenceSign x NaN = 0"
| "differenceSign PlusInfinity PlusInfinity = 0"
| "differenceSign MinusInfinity MinusInfinity = 0"
| "differenceSign PlusInfinity y = 1"
| "differenceSign MinusInfinity y = - 1"
| "differenceSign (Num a) PlusInfinity = - 1"
| "differenceSign (Num a) MinusInfinity = 1"
| "differenceSign (Num a) (Num b) = (if a < b then - 1 else if a = b then 0 else 1)"

definition compareVersions :: "(string \<Rightarrow> number) \<Rightarrow> File \<Rightarrow> File \<Rightarrow> int" where
  "compareVersions parseFloat a b =
     differenceSign (versionNumber parseFloat b) (versionNumber parseFloat a)"
  \<comment> \<open>\<open>versionB - versionA\<close>\<close>

text \<open>
  \<open>Array.prototype.sort\<close> with a comparator, as the stable insertion sort: with a
  consistent comparator every stable sort gives this result.
\<close>

fun insertBy :: "('a \<Rightarrow> 'a \<Rightarrow> int) \<Rightarrow> 'a \<Rightarrow> 'a list \<Rightarrow> 'a list" where
  "insertBy cmp x [] = [x]"
| "insertBy cmp x (y # ys) = (if cmp x y \<le> 0 then x # y # ys else y # insertBy cmp x ys)"

definition sortBy :: "('a \<Rightarrow> 'a \<Rightarrow> int) \<Rightarrow> 'a list \<Rightarrow> 'a list" where
  "sortBy cmp xs = foldr (insertBy cmp) xs []"

text \<open>The order of JavaScript's numbers, \<open>x <= y\<close>: false when either is NaN.\<close>

fun numLe :: "number \<Rightarrow> number \<Rightarrow> bool" where
  "numLe NaN y = False"
| "numLe x NaN = False"
| "numLe MinusInfinity y = True"
| "numLe x PlusInfinity = True"
| "numLe PlusInfinity y = False"
| "numLe x MinusInfinity = False"
| "numLe (Num a) (Num b) = (a \<le> b)"

datatype folderArg = FolderUndefined | FolderNull | FolderId string
  \<comment> \<open>the \<open>parentFolderId\<close> argument of \<open>getFileVersions\<close>: \<open>undefined\<close>, \<open>null\<close> or a string\<close>

text \<open>The record \<open>getFileVersions\<close> builds from an item it read.\<close>

definition versionView :: "File \<Rightarrow> File" where
  "versionView f = f
     \<lparr> name := (if originalName f = [] then name f else originalName f),
       version := (if version f = [] then ''1.0'' else version f),
       status := (if status f = [] then ''Current'' else status f),
       projectId := truthyNumber (projectId f),
       taskId := truthyNumber (taskId f),
       parentFolderId := truthyString (parentFolderId f) \<rparr>"

definition numberOrZero :: "int option \<Rightarrow> int" where
  "numberOrZero v = (case v of None \<Rightarrow> 0 | Some n \<Rightarrow> n)"
  \<comment> \<open>\<open>Number(v || 0)\<close>\<close>

definition folderMatches :: "folderArg \<Rightarrow> File \<Rightarrow> bool" where
  "folderMatches arg f =
     (case arg of
        FolderUndefined \<Rightarrow> True
      | FolderNull \<Rightarrow> parentFolderId f = None
      | FolderId d \<Rightarrow>
          if d = ''null'' then parentFolderId f = None
          else (case parentFolderId f of None \<Rightarrow> [] | Some s \<Rightarrow> s) = d)"

definition getFileVersions ::
  "(string \<Rightarrow> number) \<Rightarrow> File list \<Rightarrow> string \<Rightarrow> int option \<Rightarrow> int option \<Rightarrow> folderArg
     \<Rightarrow> File list" where
  "getFileVersions parseFloat store oname pid tid arg =
     (if trim oname = [] then [] else
     sortBy (compareVersions parseFloat)
       (filter (folderMatches arg)
         (filter (\<lambda>f. case tid of None \<Rightarrow> True | Some t \<Rightarrow> numberOrZero (taskId f) = t)
           (filter (\<lambda>f. case pid of None \<Rightarrow> True | Some p \<Rightarrow> numberOrZero (projectId f) = p)
             (filter (\<lambda>f. deletionStatus f \<noteq> Deleted)
               (map versionView (filter (\<lambda>f. originalName f = trim oname) store)))))))"

subsection \<open>Trash and recovery\<close>

definition sixtyDays :: int where
  "sixtyDays = 60 * 24 * 60 * 60 * 1000"
  \<comment> \<open>\<open>setDate(getDate() + 60)\<close> in milliseconds, for days of 24 hours\<close>

text \<open>
  The \<open>updateData\<close> of the soft-delete handlers, as the function that overwrites the
  attributes it names. A handler reads the clock once for the deadline (\<open>tSched\<close>), once
  for \<open>deletedAt\<close> (\<open>tDel\<close>) and once for \<open>updatedAt\<close> (\<open>tUpd\<close>).
\<close>

definition trashUpdate ::
  "string \<Rightarrow> timestamp \<Rightarrow> timestamp \<Rightarrow> timestamp \<Rightarrow> 'a lifecycle_scheme \<Rightarrow> 'a lifecycle_scheme" where
  "trashUpdate userId tSched tDel tUpd r = r
     \<lparr> deletionStatus := Deleted,
       deletedAt := Some tDel,
       deletedBy := Some userId,
       scheduledDeletionAt := Some (tSched + sixtyDays),
       updatedAt := tUpd \<rparr>"

definition updateItem :: "File list \<Rightarrow> int \<Rightarrow> (File \<Rightarrow> File) \<Rightarrow> File list" where
  "updateItem store i g = map (\<lambda>f. if fileId f = i then g f else f) store"
  \<comment> \<open>one \<open>UpdateCommand\<close> on the item with that key\<close>

record trashResponse =
  versionsDeleted :: nat
  trashedFile :: File
  recoveryDeadline :: timestamp

text \<open>
  \<open>moveFileToTrash\<close>. The request's id is given as \<open>parseInt\<close> read it (\<open>None\<close>: missing
  or not a number). On \<open>AwsStorage\<close> the container is every item found by the scan on the
  original name alone; on any other store only the named file is written.
\<close>

definition moveFileToTrash ::
  "storageType \<Rightarrow> File list \<Rightarrow> timestamp \<Rightarrow> timestamp \<Rightarrow> timestamp \<Rightarrow> string \<Rightarrow> int option
     \<Rightarrow> (http_error + trashResponse) \<times> File list" where
  "moveFileToTrash storage store tSched tDel tUpd userId fileIdNum =
     (case fileIdNum of
        None \<Rightarrow> (Inl (HttpError 400 ''Invalid file ID format''), store)
      | Some i \<Rightarrow>
          (case getFile store i of
             None \<Rightarrow> (Inl (HttpError 404 ''File not found''), store)
           | Some file \<Rightarrow>
               if storage = AwsStorage
               then
                 let containerFiles =
                       filter (\<lambda>f. originalName f
                                    = (if originalName file = [] then name file else originalName file))
                         store;
                     activeContainerFiles = filter (\<lambda>f. deletionStatus f \<noteq> Deleted) containerFiles
                 in (Inr \<lparr> versionsDeleted = length activeContainerFiles,
                            trashedFile = trashUpdate userId tSched tDel tUpd file,
                            recoveryDeadline = tSched + sixtyDays \<rparr>,
                     foldl (\<lambda>s containerFile.
                              updateItem s (fileId containerFile) (trashUpdate userId tSched tDel tUpd))
                       store activeContainerFiles)
               else
                 (case updateFile storage store tUpd i (trashUpdate userId tSched tDel tUpd) of
                    Inl e \<Rightarrow> (Inl (HttpError 500 ''Failed to move file to trash''), store)
                  | Inr (updatedFile, store') \<Rightarrow>
                      (Inr \<lparr> versionsDeleted = 1,
                             trashedFile = updatedFile,
                             recoveryDeadline = tSched + sixtyDays \<rparr>,
                       store'))))"

definition isHashName :: "string \<Rightarrow> bool" where
  "isHashName s =
     (length s = 32
      \<and> list_all (\<lambda>c. isDigit c \<or> (97 \<le> (of_char c :: nat) \<and> (of_char c :: nat) \<le> 102)) s)"
  \<comment> \<open>the regular expression \<open>^[a-f0-9]{32}$\<close>\<close>

text \<open>
  The \<open>updateData\<close> of \<open>restoreFile\<close>, computed from the file the handler read and merged
  into the record \<open>updateFile\<close> reads.
\<close>

definition restoreUpdate :: "File \<Rightarrow> File \<Rightarrow> File" where
  "restoreUpdate file existing =
     (let cleared = existing
            \<lparr> deletionStatus := Active, deletedAt := None, deletedBy := None,
              scheduledDeletionAt := None \<rparr>
      in if name file \<noteq> [] \<and> originalName file \<noteq> [] \<and> name file \<noteq> originalName file
            \<and> isHashName (name file) \<and> CHR ''.'' \<in> set (originalName file)
         then cleared\<lparr>name := originalName file\<rparr>
         else cleared)"

text \<open>\<open>restoreFile\<close>, on either store.\<close>

definition restoreFile ::
  "storageType \<Rightarrow> File list \<Rightarrow> timestamp \<Rightarrow> int option \<Rightarrow> (http_error + File) \<times> File list" where
  "restoreFile storage store now fileIdNum =
     (case fileIdNum of
        None \<Rightarrow> (Inl (HttpError 400 ''Invalid file ID format''), store)
      | Some i \<Rightarrow>
          (case getFile store i of
             None \<Rightarrow> (Inl (HttpError 404 ''File not found''), store)
           | Some file \<Rightarrow>
               if deletionStatus file \<noteq> Deleted
               then (Inl (HttpError 400 ''File is not in trash''), store)
               else
                 (case updateFile storage store now i (restoreUpdate file) of
                    Inl e \<Rightarrow> (Inl (HttpError 500 ''Failed to restore file''), store)
                  | Inr (restoredFile, store') \<Rightarrow> (Inr restoredFile, store'))))"

text \<open>
  The relational table \<open>files\<close>. The scheduled task \<open>cleanupExpiredItems\<close> and the handlers
  \<open>permanentlyDeleteFile\<close>, \<open>moveFolderToTrashOld\<close> and \<open>restoreFolder\<close> go through \<open>db\<close> to
  the relational database, not to the store of the storage factory, which
  \<open>moveFileToTrash\<close> and \<open>restoreFile\<close> work on. A row of \<open>files\<close> carries the attributes
  of a file record. The module imports the table \<open>files\<close> alone: the name \<open>folders\<close>, which
  \<open>cleanupExpiredItems\<close>, \<open>moveFolderToTrashOld\<close> and \<open>restoreFolder\<close> use, is bound nowhere,
  and evaluating it throws.
\<close>

definition purgeDue :: "timestamp \<Rightarrow> 'a lifecycle_scheme \<Rightarrow> bool" where
  "purgeDue now r =
     (deletionStatus r = Deleted
      \<and> (case scheduledDeletionAt r of None \<Rightarrow> False | Some t \<Rightarrow> t < now))"
  \<comment> \<open>the \<open>WHERE\<close> of the sweep; a row without a deadline never satisfies \<open>lt\<close>\<close>

definition purge :: "timestamp \<Rightarrow> 'a lifecycle_scheme \<Rightarrow> 'a lifecycle_scheme" where
  "purge now r =
     (if purgeDue now r then r\<lparr>deletionStatus := PermanentlyDeleted, updatedAt := now\<rparr> else r)"

text \<open>
  \<open>cleanupExpiredItems\<close>: the \<open>UPDATE ... WHERE\<close> on the rows of \<open>files\<close> runs; the next
  statement names \<open>folders\<close> and throws before it reaches the database; the handler logs
  the error and throws it again. The task never returns its counts: its outcome is the
  error, and the rows the first statement left.
\<close>

definition cleanupExpiredItems ::
  "File list \<Rightarrow> timestamp \<Rightarrow> (string + nat \<times> nat) \<times> File list" where
  "cleanupExpiredItems rows now = (Inl ''folders is not defined'', map (purge now) rows)"

text \<open>
  \<open>moveFolderToTrashOld\<close>, which no route uses: after the test of the id its first
  statement on the database names \<open>folders\<close> and throws; the handler answers 500, and no
  row is written.
\<close>

definition moveFolderToTrashOld :: "File list \<Rightarrow> string \<Rightarrow> http_error \<times> File list" where
  "moveFolderToTrashOld rows fid =
     (if fid = [] \<or> fid = ''undefined''
      then (HttpError 400 ''Valid folder ID required'', rows)
      else (HttpError 500 ''Failed to move folder to trash'', rows))"

text \<open>
  The two places where a file's lifecycle status lives, and the three operations on it:
  restore and soft-delete work on the store of the storage factory, the sweep on the rows
  of the database.
\<close>

record stores =
  fileStore :: "File list"
  fileRows :: "File list"

datatype operation =
    Restore timestamp "int option"
  | SoftDelete timestamp timestamp timestamp string "int option"
  | Sweep timestamp

fun perform :: "storageType \<Rightarrow> stores \<Rightarrow> operation \<Rightarrow> stores" where
  "perform storage s (Restore now i) =
     s\<lparr>fileStore := snd (restoreFile storage (fileStore s) now i)\<rparr>"
| "perform storage s (SoftDelete tSched tDel tUpd userId i) =
     s\<lparr>fileStore := snd (moveFileToTrash storage (fileStore s) tSched tDel tUpd userId i)\<rparr>"
| "perform storage s (Sweep now) =
     s\<lparr>fileRows := snd (cleanupExpiredItems (fileRows s) now)\<rparr>"

text \<open>
  No writer of the storage factory's store writes the status \<open>permanently_deleted\<close>:
  \<open>createFile\<close> writes no status, the trash handlers write \<open>deleted\<close> and \<open>active\<close>, every
  other update leaves the status as it is. A store the program has written holds no
  purged record.
\<close>

definition noPurged :: "File list \<Rightarrow> bool" where
  "noPurged store = (\<forall>f \<in> set store. deletionStatus f \<noteq> PermanentlyDeleted)"

text \<open>
  \<open>moveFolderToTrash\<close>, the exported handler, works on the raw table: items with their
  partition and sort key. \<open>itemName\<close> is the attribute \<open>name\<close> the scan tests for.
\<close>

record item = lifecycle +
  PK :: string
  SK :: string
  itemType :: string
  itemId :: string
  itemName :: "string option"
  itemParentFolderId :: "string option"

fun contains :: "string \<Rightarrow> string \<Rightarrow> bool" where
  "contains [] sub = (sub = [])"
| "contains (c # cs) sub = (take (length sub) (c # cs) = sub \<or> contains cs sub)"
  \<comment> \<open>the filter function \<open>contains(SK, :folderId)\<close> on strings\<close>

definition putItem :: "item list \<Rightarrow> item \<Rightarrow> item list" where
  "putItem table it =
     (if (PK it, SK it) \<in> set (map (\<lambda>x. (PK x, SK x)) table)
      then map (\<lambda>x. if PK x = PK it \<and> SK x = SK it then it else x) table
      else table @ [it])"

definition moveFolderToTrash ::
  "item list \<Rightarrow> timestamp \<Rightarrow> timestamp \<Rightarrow> string \<Rightarrow> string \<Rightarrow> string \<Rightarrow> nat \<times> item list" where
  "moveFolderToTrash table tSched now userId fid fname =
     (let trashItem = \<lparr> deletionStatus = Deleted, deletedAt = Some now, deletedBy = Some userId,
                        scheduledDeletionAt = Some (tSched + sixtyDays), updatedAt = now,
                        PK = ''TRASH'', SK = ''FOLDER#'' @ fid, itemType = ''TrashItem'',
                        itemId = fid, itemName = Some fname, itemParentFolderId = None \<rparr>;
          table1 = putItem table trashItem;
          scanResult = filter (\<lambda>x. contains (SK x) fid \<and> itemName x \<noteq> None) table1
      in (length scanResult,
          filter (\<lambda>x. (PK x, SK x) \<notin> set (map (\<lambda>y. (PK y, SK y)) scanResult)) table1))"

text \<open>
  The scope filters of \<open>getFilesByOriginalName\<close> as \<open>handleFileVersioning\<close> calls it for the
  descriptor \<open>d\<close>: a component the descriptor leaves out filters nothing.
\<close>

definition scopeMatches :: "File \<Rightarrow> File \<Rightarrow> bool" where
  "scopeMatches d f =
     ((case truthyNumber (projectId d) of None \<Rightarrow> True | Some p \<Rightarrow> projectId f = Some p)
      \<and> (case truthyNumber (taskId d) of None \<Rightarrow> True | Some t \<Rightarrow> taskId f = Some t)
      \<and> (case truthyString (parentFolderId d) of
            None \<Rightarrow> True
          | Some fo \<Rightarrow> jsString (parentFolderId f) = fo))"

text \<open>
  The lineage of the specification's glossary: the records that share one original
  filename within one project, task and folder. This definition follows the
  specification's words; the handlers above do not use it.
\<close>

definition sameLineage :: "File \<Rightarrow> File \<Rightarrow> bool" where
  "sameLineage g f =
     (originalName f = originalName g \<and> projectId f = projectId g
      \<and> taskId f = taskId g \<and> parentFolderId f = parentFolderId g)"

section \<open>Example data\<close>

subsection \<open>Example files\<close>

definition planV1 :: File where
  "planV1 = \<lparr> deletionStatus = Active, deletedAt = None, deletedBy = None,
       scheduledDeletionAt = None, updatedAt = 10,
       fileId = 1, name = ''plan.pdf'', originalName = ''plan.pdf'', version = ''1.0'',
       status = ''Superseded'', projectId = Some 7, taskId = Some 3,
       parentFolderId = Some ''F1'', createdAt = 10 \<rparr>"

definition planV2 :: File where
  "planV2 = planV1\<lparr>fileId := 2, version := ''2.0'', status := ''Current''\<rparr>"

definition purgedPlan :: File where
  "purgedPlan = planV1
     \<lparr> fileId := 3, version := ''10.0'', deletionStatus := PermanentlyDeleted,
       deletedAt := Some 5, deletedBy := Some ''u1'', scheduledDeletionAt := Some 6 \<rparr>"

definition otherProjectPlan :: File where
  "otherProjectPlan = planV1\<lparr>fileId := 4, status := ''Current'', projectId := Some 8\<rparr>"

definition planUpload :: File where
  "planUpload = planV1\<lparr>fileId := 0, status := ''Current''\<rparr>"
  \<comment> \<open>the descriptor the upload route builds for \<open>plan.pdf\<close> in project 7, task 3, folder F1\<close>

definition corruptedFile :: File where
  "corruptedFile = planV1
     \<lparr> fileId := 9, name := ''0123456789abcdef0123456789abcdef'',
       originalName := ''site-plan.dwg'', deletionStatus := Deleted, deletedAt := Some 100,
       deletedBy := Some ''u1'', scheduledDeletionAt := Some (100 + sixtyDays) \<rparr>"

definition rootUpload :: File where
  "rootUpload = planUpload\<lparr>projectId := None, taskId := None, parentFolderId := None\<rparr>"

definition rootFile :: File where
  "rootFile = planV1\<lparr>fileId := 6, status := ''Current'', projectId := None, taskId := None,
       parentFolderId := None\<rparr>"

definition otherRootFile :: File where
  "otherRootFile = rootFile\<lparr>fileId := 8, version := ''2.0'', projectId := Some 8\<rparr>"

definition planV10 :: File where
  "planV10 = planV1\<lparr>fileId := 10, version := ''10.0'', status := ''Current''\<rparr>"

definition trashedPlan :: File where
  "trashedPlan = planV1\<lparr>fileId := 11, version := ''11.0'', deletionStatus := Deleted,
       deletedAt := Some 50, deletedBy := Some ''u1'', scheduledDeletionAt := Some (50 + sixtyDays)\<rparr>"

subsection \<open>Reading the labels of the examples\<close>

text \<open>
  For the examples, \<open>parseFloat\<close> on plain decimal labels: one to fifteen digits, with or
  without a point among them, digits on both sides of it. From such a label the builtin
  reads the double nearest to the decimal, and two such labels compare as their decimals
  do. The examples use the reader on such labels only; for every other string it says
  NaN, where the builtin may read a number.
\<close>

fun digitsValue :: "nat \<Rightarrow> string \<Rightarrow> nat" where
  "digitsValue acc [] = acc"
| "digitsValue acc (c # cs) = digitsValue (10 * acc + (of_char c - 48)) cs"

definition readDecimal :: "string \<Rightarrow> number" where
  "readDecimal s =
     (let intPart = takeWhile isDigit s;
          rest = dropWhile isDigit s
      in if intPart = [] \<or> 16 < length s then NaN
         else if rest = [] then (if length s \<le> 15 then Num (of_nat (digitsValue 0 intPart)) else NaN)
         else if hd rest = CHR ''.'' \<and> tl rest \<noteq> [] \<and> list_all isDigit (tl rest)
         then Num (of_nat (digitsValue 0 intPart)
                   + of_nat (digitsValue 0 (tl rest)) / 10 ^ length (tl rest))
         else NaN)"

subsection \<open>An example folder tree\<close>

definition blankItem :: item where
  "blankItem = \<lparr> deletionStatus = Active, deletedAt = None, deletedBy = None,
       scheduledDeletionAt = None, updatedAt = 10,
       PK = '''', SK = '''', itemType = '''', itemId = '''', itemName = None,
       itemParentFolderId = None \<rparr>"

definition folderItemF1 :: item where
  "folderItemF1 = blankItem\<lparr>PK := ''ROOT_FOLDERS'', SK := ''FOLDER#F1'', itemType := ''Folder'',
       itemId := ''F1'', itemName := Some ''Drawings''\<rparr>"

definition folderItemF2 :: item where
  "folderItemF2 = blankItem\<lparr>PK := ''FOLDER#F1'', SK := ''SUBFOLDER#G2'', itemType := ''Folder'',
       itemId := ''G2'', itemName := Some ''Details'', itemParentFolderId := Some ''F1''\<rparr>"

definition fileItem1 :: item where
  "fileItem1 = blankItem\<lparr>PK := ''FILES'', SK := ''FILE#1'', itemType := ''File'', itemId := ''1'',
       itemName := Some ''plan.pdf'', itemParentFolderId := Some ''F1''\<rparr>"

definition fileItem5 :: item where
  "fileItem5 = blankItem\<lparr>PK := ''FILES'', SK := ''FILE#5'', itemType := ''File'', itemId := ''5'',
       itemName := Some ''detail.pdf'', itemParentFolderId := Some ''G2''\<rparr>"

subsection \<open>Example stores\<close>

definition overduePlan :: File where
  "overduePlan = planV1\<lparr>fileId := 12, deletionStatus := Deleted, deletedAt := Some 50,
       deletedBy := Some ''u1'', scheduledDeletionAt := Some 1000\<rparr>"

definition exampleStores :: stores where
  "exampleStores = \<lparr> fileStore = [planV1, planV2, trashedPlan],
                     fileRows = [overduePlan, purgedPlan, trashedPlan, planV2] \<rparr>"

subsection \<open>An example link\<close>

definition exampleLink :: shareableLink where
  "exampleLink = \<lparr> linkId = ''L1'', resourceType = ''file'', resourceId = ''42'',
       linkType = ''view'', isPublic = True, password = Some ''secret'',
       expiresAt = Some (Date 2000), maxUses = Some 1, currentUses = 0,
       createdBy = ''u1'', isActive = True \<rparr>"

definition exampleLinks :: linkStore where
  "exampleLinks = Map.empty(''L1'' \<mapsto> exampleLink)"


section \<open>Properties of the shareable links\<close>

lemma linkData_fields:
  "maxUses (linkData i item) = (case maxUses item of None \<Rightarrow> None | Some m \<Rightarrow> if m = 0 then None else Some m)"
  "password (linkData i item) = (case password item of None \<Rightarrow> None | Some p \<Rightarrow> if p = [] then None else Some p)"
  "currentUses (linkData i item) = currentUses item"
  "isActive (linkData i item) = isActive item"
  "expiresAt (linkData i item) = expiresAt item"
  "resourceId (linkData i item) = resourceId item"
  by (simp_all add: linkData_def)

lemma linkData_currentUses_update:
  "linkData i (item\<lparr>currentUses := c\<rparr>) = (linkData i item)\<lparr>currentUses := c\<rparr>"
  by (simp add: linkData_def)

lemma getShareableLink_SomeD:
  assumes "getShareableLink st i = Some link"
  shows "i \<noteq> [] \<and> i \<noteq> ''undefined'' \<and> i \<noteq> ''null'' \<and> (\<exists>item. st i = Some item \<and> link = linkData i item)"
  using assms unfolding getShareableLink_def
  by (simp split: if_splits option.splits)

lemma getShareableLink_normal:
  assumes "getShareableLink st i = Some link"
  shows "maxUses link \<noteq> Some 0 \<and> password link \<noteq> Some []"
proof -
  from getShareableLink_SomeD[OF assms] obtain item where "link = linkData i item" by blast
  then show ?thesis by (simp add: linkData_fields split: option.splits)
qed

lemma getShareableLink_update_same:
  assumes "getShareableLink st i = Some link"
  shows "getShareableLink (updateShareableLink st i c) i = Some (link\<lparr>currentUses := c\<rparr>)"
proof -
  from getShareableLink_SomeD[OF assms] obtain item where
    i: "i \<noteq> []" "i \<noteq> ''undefined''" "i \<noteq> ''null''" and item: "st i = Some item" and l: "link = linkData i item"
    by blast
  from assms item i have ok: "\<not> (linkId (linkData i item) = [] \<or> linkId (linkData i item) = ''undefined'')"
     "\<not> (resourceId (linkData i item) = [] \<or> resourceId (linkData i item) = ''undefined'')"
    unfolding getShareableLink_def by (simp_all split: if_splits)
  have "updateShareableLink st i c i = Some (item\<lparr>currentUses := c\<rparr>)"
    by (simp add: updateShareableLink_def item)
  then show ?thesis
    using i ok unfolding getShareableLink_def l
    by (simp add: linkData_currentUses_update)
qed

lemma getShareableLink_update_other:
  assumes "j \<noteq> i"
  shows "getShareableLink (updateShareableLink st i c) j = getShareableLink st j"
proof -
  have "updateShareableLink st i c j = st j"
    using assms by (simp add: updateShareableLink_def split: option.splits)
  then show ?thesis by (simp add: getShareableLink_def)
qed


lemma isExpired_iff:
  "isExpired link now \<longleftrightarrow> (\<exists>t. expiresAt link = Some (Date t) \<and> t < now)"
  by (auto simp: isExpired_def split: option.splits date.splits)

lemma usageExceeded_iff:
  assumes "maxUses link \<noteq> Some 0"
  shows "usageExceeded link \<longleftrightarrow> (\<exists>m. maxUses link = Some m \<and> m \<le> currentUses link)"
  using assms by (auto simp: usageExceeded_def split: option.splits)

lemma passwordRejected_iff:
  assumes "password link \<noteq> Some []"
  shows "passwordRejected link supplied \<longleftrightarrow> (\<exists>p. password link = Some p \<and> supplied \<noteq> Some p)"
  using assms by (auto simp: passwordRejected_def split: option.splits)

lemma sharedLinkApi_None:
  assumes "getShareableLink st i = None"
  shows "\<exists>e. sharedLinkApi st now i supplied = (Inl e, st)"
  using assms by (simp add: sharedLinkApi_def)

lemma sharedLinkApi_Some:
  assumes "getShareableLink st i = Some link"
  shows "sharedLinkApi st now i supplied =
     (if \<not> isActive link then (Inl (HttpError 404 ''Link not found or inactive''), st)
      else if isExpired link now then (Inl (HttpError 410 ''Link has expired''), st)
      else if usageExceeded link then (Inl (HttpError 410 ''Link usage limit exceeded''), st)
      else if passwordRejected link supplied then (Inl (HttpError 401 ''Password required''), st)
      else (Inr \<lparr> resp_id = linkId link, resp_resourceType = resourceType link,
                  resp_resourceId = resourceId link, resp_linkType = linkType link,
                  resp_isPublic = isPublic link, resp_expiresAt = expiresAt link,
                  resp_maxUses = maxUses link, resp_currentUses = currentUses link + 1 \<rparr>,
            updateShareableLink st i (currentUses link + 1)))"
  using getShareableLink_SomeD[OF assms] assms by (simp add: sharedLinkApi_def)

lemma sharedLinkBrowser_Some:
  assumes "getShareableLink st i = Some link"
  shows "sharedLinkBrowser st now i =
     (if \<not> isActive link then (Inl (HttpError 404 ''Link not found or inactive''), st)
      else if isExpired link now then (Inl (HttpError 410 ''Link has expired''), st)
      else if usageExceeded link then (Inl (HttpError 410 ''Link usage limit exceeded''), st)
      else if linkType link = ''download'' \<and> resourceType link = ''file''
      then (Inr (Redirect (''/api/files/'' @ resourceId link @ ''/download'')),
            updateShareableLink st i (currentUses link + 1))
      else (Inr (SharedView (if resourceType link = ''file'' then ''File'' else ''Folder'')),
            updateShareableLink st i (currentUses link + 1)))"
  using getShareableLink_SomeD[OF assms] assms by (simp add: sharedLinkBrowser_def)

text \<open>
  Claim C3 (link resolution contract). Whatever the API route answers for a link id and a
  supplied password: when no link reads back for the id (missing, or stored unusably) it
  fails and writes nothing; when the link is inactive, or its \<open>expiresAt\<close> is set and in
  the past, or its \<open>maxUses\<close> is set and \<open>currentUses\<close> has reached it, or its password is
  set and differs from the supplied one, it fails and writes nothing; in every other case
  it answers with the link's permission tier and resource reference and the counter plus
  one, and the link then reads back from the store with \<open>currentUses\<close> one higher and
  nothing else changed, every other link reading back as before.
\<close>

theorem sharedLinkApi_contract:
  assumes "sharedLinkApi st now i supplied = (r, st')"
  shows "(case getShareableLink st i of
            None \<Rightarrow> (\<exists>e. r = Inl e) \<and> st' = st
          | Some link \<Rightarrow>
              if \<not> isActive link
                 \<or> (\<exists>t. expiresAt link = Some (Date t) \<and> t < now)
                 \<or> (\<exists>m. maxUses link = Some m \<and> m \<le> currentUses link)
                 \<or> (\<exists>p. password link = Some p \<and> supplied \<noteq> Some p)
              then (\<exists>e. r = Inl e) \<and> st' = st
              else r = Inr \<lparr> resp_id = linkId link, resp_resourceType = resourceType link,
                              resp_resourceId = resourceId link, resp_linkType = linkType link,
                              resp_isPublic = isPublic link, resp_expiresAt = expiresAt link,
                              resp_maxUses = maxUses link, resp_currentUses = currentUses link + 1 \<rparr>
                   \<and> getShareableLink st' i = Some (link\<lparr>currentUses := currentUses link + 1\<rparr>)
                   \<and> (\<forall>j. j \<noteq> i \<longrightarrow> getShareableLink st' j = getShareableLink st j))"
proof (cases "getShareableLink st i")
  case None
  from sharedLinkApi_None[OF None, of now supplied] assms None show ?thesis by auto
next
  case (Some link)
  note N = getShareableLink_normal[OF Some]
  note eqs = isExpired_iff[of link now] usageExceeded_iff[of link] passwordRejected_iff[of link supplied]
  show ?thesis
  proof (cases "\<not> isActive link \<or> isExpired link now \<or> usageExceeded link \<or> passwordRejected link supplied")
    case True
    then have "(\<exists>e. r = Inl e) \<and> st' = st"
      using assms unfolding sharedLinkApi_Some[OF Some] by (auto split: if_splits)
    moreover from True N eqs have "\<not> isActive link
                 \<or> (\<exists>t. expiresAt link = Some (Date t) \<and> t < now)
                 \<or> (\<exists>m. maxUses link = Some m \<and> m \<le> currentUses link)
                 \<or> (\<exists>p. password link = Some p \<and> supplied \<noteq> Some p)" by blast
    ultimately show ?thesis using Some by simp
  next
    case False
    then have r: "r = Inr \<lparr> resp_id = linkId link, resp_resourceType = resourceType link,
                              resp_resourceId = resourceId link, resp_linkType = linkType link,
                              resp_isPublic = isPublic link, resp_expiresAt = expiresAt link,
                              resp_maxUses = maxUses link, resp_currentUses = currentUses link + 1 \<rparr>"
      and st': "st' = updateShareableLink st i (currentUses link + 1)"
      using assms unfolding sharedLinkApi_Some[OF Some] by simp_all
    have a: "getShareableLink st' i = Some (link\<lparr>currentUses := currentUses link + 1\<rparr>)"
      unfolding st' by (rule getShareableLink_update_same[OF Some])
    have b: "\<forall>j. j \<noteq> i \<longrightarrow> getShareableLink st' j = getShareableLink st j"
      unfolding st' by (simp add: getShareableLink_update_other)
    from False N eqs have "\<not> (\<not> isActive link
                 \<or> (\<exists>t. expiresAt link = Some (Date t) \<and> t < now)
                 \<or> (\<exists>m. maxUses link = Some m \<and> m \<le> currentUses link)
                 \<or> (\<exists>p. password link = Some p \<and> supplied \<noteq> Some p))" by blast
    then show ?thesis using Some r a b by simp
  qed
qed


lemma toLowerCase_examples:
  "toLowerCase ''file'' = ''file''" "toLowerCase ''view'' = ''view''" "toLowerCase ''File'' = ''file''"
  by code_simp+

lemma exampleLinks_read: "getShareableLink exampleLinks ''L1'' = Some exampleLink"
  by (simp add: getShareableLink_def exampleLinks_def linkData_def exampleLink_def toLowerCase_examples)

text \<open>
  The contract at a stored link with a password, an expiry at time 2000 and one use: the
  right password at time 1000 succeeds, no password fails, time 3000 fails, an unknown id
  fails.
\<close>

theorem sharedLinkApi_contract_witness:
  "fst (sharedLinkApi exampleLinks 1000 ''L1'' (Some ''secret''))
     = Inr \<lparr> resp_id = ''L1'', resp_resourceType = ''file'', resp_resourceId = ''42'',
             resp_linkType = ''view'', resp_isPublic = True, resp_expiresAt = Some (Date 2000),
             resp_maxUses = Some 1, resp_currentUses = 1 \<rparr>
   \<and> getShareableLink (snd (sharedLinkApi exampleLinks 1000 ''L1'' (Some ''secret''))) ''L1''
     = Some (exampleLink\<lparr>currentUses := 1\<rparr>)
   \<and> (\<exists>e. fst (sharedLinkApi exampleLinks 1000 ''L1'' None) = Inl e)
   \<and> (\<exists>e. fst (sharedLinkApi exampleLinks 3000 ''L1'' (Some ''secret'')) = Inl e)
   \<and> (\<exists>e. fst (sharedLinkApi exampleLinks 1000 ''L2'' (Some ''secret'')) = Inl e)"
proof -
  have nolink: "getShareableLink exampleLinks ''L2'' = None"
    by (simp add: getShareableLink_def exampleLinks_def)
  have a: "sharedLinkApi exampleLinks 1000 ''L1'' (Some ''secret'')
     = (fst (sharedLinkApi exampleLinks 1000 ''L1'' (Some ''secret'')),
        snd (sharedLinkApi exampleLinks 1000 ''L1'' (Some ''secret'')))" by simp
  have b: "sharedLinkApi exampleLinks 1000 ''L1'' None
     = (fst (sharedLinkApi exampleLinks 1000 ''L1'' None),
        snd (sharedLinkApi exampleLinks 1000 ''L1'' None))" by simp
  have c: "sharedLinkApi exampleLinks 3000 ''L1'' (Some ''secret'')
     = (fst (sharedLinkApi exampleLinks 3000 ''L1'' (Some ''secret'')),
        snd (sharedLinkApi exampleLinks 3000 ''L1'' (Some ''secret'')))" by simp
  have d: "sharedLinkApi exampleLinks 1000 ''L2'' (Some ''secret'')
     = (fst (sharedLinkApi exampleLinks 1000 ''L2'' (Some ''secret'')),
        snd (sharedLinkApi exampleLinks 1000 ''L2'' (Some ''secret'')))" by simp
  show ?thesis
    using sharedLinkApi_contract[OF a] sharedLinkApi_contract[OF b]
      sharedLinkApi_contract[OF c] sharedLinkApi_contract[OF d]
    unfolding exampleLinks_read nolink
    by (simp add: exampleLink_def)
qed


text \<open>
  Claim C10 (the browser route checks no password). For an active, unexpired,
  non-exhausted link whose password is set, the browser route \<open>/s/:linkId\<close> succeeds and
  leaves \<open>currentUses\<close> one higher, whatever the caller knows, while the API route answers
  the same request with 401 for every supplied password but the right one (none supplied
  included) and writes nothing.
\<close>

theorem browser_route_reads_no_password:
  assumes "getShareableLink st i = Some link" and "isActive link"
    and "\<forall>t. expiresAt link = Some (Date t) \<longrightarrow> now \<le> t"
    and "\<forall>m. maxUses link = Some m \<longrightarrow> currentUses link < m"
    and "password link = Some p" and "supplied \<noteq> Some p"
  shows "(\<exists>page. fst (sharedLinkBrowser st now i) = Inr page)
       \<and> getShareableLink (snd (sharedLinkBrowser st now i)) i
           = Some (link\<lparr>currentUses := currentUses link + 1\<rparr>)
       \<and> sharedLinkApi st now i supplied = (Inl (HttpError 401 ''Password required''), st)"
proof -
  note N = getShareableLink_normal[OF assms(1)]
  have e: "\<not> isExpired link now"
    using assms(3) by (auto simp: isExpired_iff)
  have u: "\<not> usageExceeded link"
    using assms(4) N by (auto simp: usageExceeded_iff)
  have r: "passwordRejected link supplied"
    using assms(5,6) N by (auto simp: passwordRejected_iff)
  have st': "snd (sharedLinkBrowser st now i) = updateShareableLink st i (currentUses link + 1)"
    and page: "\<exists>page. fst (sharedLinkBrowser st now i) = Inr page"
    unfolding sharedLinkBrowser_Some[OF assms(1)] using assms(2) e u by simp_all
  have api: "sharedLinkApi st now i supplied = (Inl (HttpError 401 ''Password required''), st)"
    unfolding sharedLinkApi_Some[OF assms(1)] using assms(2) e u r by simp
  show ?thesis
    using page api unfolding st' by (simp add: getShareableLink_update_same[OF assms(1)])
qed

text \<open>The same at the example link, with a wrong password and with none.\<close>

theorem browser_route_reads_no_password_witness:
  "(\<exists>page. fst (sharedLinkBrowser exampleLinks 1000 ''L1'') = Inr page)
   \<and> getShareableLink (snd (sharedLinkBrowser exampleLinks 1000 ''L1'')) ''L1''
       = Some (exampleLink\<lparr>currentUses := 1\<rparr>)
   \<and> sharedLinkApi exampleLinks 1000 ''L1'' (Some ''guess'')
       = (Inl (HttpError 401 ''Password required''), exampleLinks)
   \<and> sharedLinkApi exampleLinks 1000 ''L1'' None
       = (Inl (HttpError 401 ''Password required''), exampleLinks)"
proof -
  have h: "isActive exampleLink" "\<forall>t. expiresAt exampleLink = Some (Date t) \<longrightarrow> 1000 \<le> t"
    "\<forall>m. maxUses exampleLink = Some m \<longrightarrow> currentUses exampleLink < m"
    "password exampleLink = Some ''secret''" "Some ''guess'' \<noteq> Some ''secret''"
    "None \<noteq> Some ''secret''"
    by (simp_all add: exampleLink_def)
  show ?thesis
    using browser_route_reads_no_password[OF exampleLinks_read h(1,2,3,4,5)]
      browser_route_reads_no_password[OF exampleLinks_read h(1,2,3,4,6)]
    by (simp add: exampleLink_def)
qed

lemma sharedLinkApi_store:
  "snd (sharedLinkApi st now j supplied) = st
   \<or> (\<exists>link. getShareableLink st j = Some link \<and> \<not> usageExceeded link
        \<and> snd (sharedLinkApi st now j supplied) = updateShareableLink st j (currentUses link + 1))"
proof (cases "getShareableLink st j")
  case None
  then show ?thesis using sharedLinkApi_None[OF None, of now supplied] by auto
next
  case (Some link)
  show ?thesis unfolding sharedLinkApi_Some[OF Some] using Some by simp
qed

lemma sharedLinkBrowser_store:
  "snd (sharedLinkBrowser st now j) = st
   \<or> (\<exists>link. getShareableLink st j = Some link \<and> \<not> usageExceeded link
        \<and> snd (sharedLinkBrowser st now j) = updateShareableLink st j (currentUses link + 1))"
proof (cases "getShareableLink st j")
  case None
  then show ?thesis by (simp add: sharedLinkBrowser_def)
next
  case (Some link)
  show ?thesis unfolding sharedLinkBrowser_Some[OF Some] using Some by simp
qed

lemma isWhole_iff: "isWhole x \<longleftrightarrow> (\<exists>k :: int. x = of_int k)"
  by (simp add: isWhole_def)

lemma whole_successor:
  assumes "isWhole c" and "isWhole m" and "c < m"
  shows "c + 1 \<le> m \<and> isWhole (c + 1)"
proof -
  from assms(1) obtain a :: int where a: "c = of_int a" by (auto simp: isWhole_iff)
  from assms(2) obtain b :: int where b: "m = of_int b" by (auto simp: isWhole_iff)
  from assms(3) have "a < b" unfolding a b by simp
  then have "a + 1 \<le> b" by simp
  then have "(of_int (a + 1) :: rat) \<le> of_int b" by (simp only: of_int_le_iff)
  then have "c + 1 \<le> m" unfolding a b by simp
  moreover have "c + 1 = of_int (a + 1)" unfolding a by simp
  then have "isWhole (c + 1)" unfolding isWhole_iff by blast
  ultimately show ?thesis by simp
qed

lemma usesWithinBound_update:
  assumes "usesWithinBound st i \<and> countsWholeUses st i"
    and "getShareableLink st j = Some link" and "\<not> usageExceeded link"
  shows "usesWithinBound (updateShareableLink st j (currentUses link + 1)) i
         \<and> countsWholeUses (updateShareableLink st j (currentUses link + 1)) i"
proof (cases "i = j")
  case True
  have whole: "isWhole (currentUses link)" "\<forall>m. maxUses link = Some m \<longrightarrow> isWhole m"
    using assms(1,2) unfolding True countsWholeUses_def by (simp_all split: option.splits)
  have nz: "maxUses link \<noteq> Some 0" using getShareableLink_normal[OF assms(2)] by simp
  have step: "currentUses link + 1 \<le> m" if "maxUses link = Some m" for m
  proof -
    from that nz have "m \<noteq> 0" by auto
    with assms(3) that have "currentUses link < m" by (simp add: usageExceeded_def)
    with whole that show ?thesis using whole_successor by blast
  qed
  have next_whole: "isWhole (currentUses link + 1)"
  proof -
    from whole(1) obtain a :: int where "currentUses link = of_int a" by (auto simp: isWhole_iff)
    then have "currentUses link + 1 = of_int (a + 1)" by simp
    then show ?thesis unfolding isWhole_iff by blast
  qed
  show ?thesis
    unfolding True usesWithinBound_def countsWholeUses_def getShareableLink_update_same[OF assms(2)]
    using step next_whole whole(2) by (simp split: option.splits)
next
  case False
  then show ?thesis
    using assms(1)
    by (simp add: usesWithinBound_def countsWholeUses_def getShareableLink_update_other)
qed

lemma runAccess_usesWithinBound:
  assumes "usesWithinBound st i \<and> countsWholeUses st i"
  shows "usesWithinBound (runAccess st a) i \<and> countsWholeUses (runAccess st a) i"
proof (cases a)
  case (ApiAccess now j supplied)
  show ?thesis
    using sharedLinkApi_store[of st now j supplied] assms usesWithinBound_update[OF assms]
    unfolding ApiAccess by auto
next
  case (BrowserAccess now j)
  show ?thesis
    using sharedLinkBrowser_store[of st now j] assms usesWithinBound_update[OF assms]
    unfolding BrowserAccess by auto
qed

lemma runAccesses_usesWithinBound:
  "usesWithinBound st i \<and> countsWholeUses st i
   \<Longrightarrow> usesWithinBound (runAccesses st as) i \<and> countsWholeUses (runAccesses st as) i"
proof (induction as arbitrary: st)
  case Nil
  then show ?case by simp
next
  case (Cons a as)
  from Cons.prems have "usesWithinBound (runAccess st a) i \<and> countsWholeUses (runAccess st a) i"
    by (rule runAccess_usesWithinBound)
  then show ?case using Cons.IH by simp
qed

lemma created_usesWithinBound:
  assumes "createShareableLink st newId d = Inr (l, st1)"
    and "\<forall>m. maxUses d = Some m \<longrightarrow> 0 \<le> m \<and> isWhole m"
  shows "usesWithinBound st1 newId \<and> countsWholeUses st1 newId"
proof -
  let ?item = "serializeLink (sanitizedLink newId d)"
  from assms(1) have st1: "st1 = st(newId \<mapsto> ?item)"
    by (auto simp: createShareableLink_def split: if_splits)
  have "getShareableLink st1 newId = None
        \<or> getShareableLink st1 newId = Some (linkData newId ?item)"
    unfolding st1 getShareableLink_def by simp
  moreover have "currentUses (linkData newId ?item) = 0"
    by (simp add: linkData_def sanitizedLink_def serializeLink_def)
  moreover have "\<forall>m. maxUses (linkData newId ?item) = Some m \<longrightarrow> 0 \<le> m \<and> isWhole m"
    using assms(2)
    by (auto simp: linkData_def sanitizedLink_def serializeLink_def split: option.splits if_splits)
  moreover have "isWhole 0" by (simp add: isWhole_def)
  ultimately show ?thesis
    by (auto simp: usesWithinBound_def countsWholeUses_def split: option.splits)
qed

text \<open>
  Claim C8 (use-counter bound), for a link created with a \<open>maxUses\<close> that is a whole number
  and not negative (or with none). After creation, and after any sequence of accesses
  through the two public routes, each on the store the previous one left, the created link
  reads back with \<open>currentUses \<le> maxUses\<close> whenever its \<open>maxUses\<close> is set; creation starts
  the counter at zero; and on any store a link whose \<open>expiresAt\<close> is in the past fails both
  routes and nothing is written, whatever its counter.
\<close>

theorem use_counter_bound:
  assumes "createShareableLink st newId d = Inr (l, st1)"
    and "\<forall>m. maxUses d = Some m \<longrightarrow> 0 \<le> m \<and> isWhole m"
  shows "(\<forall>link m. getShareableLink (runAccesses st1 as) newId = Some link \<and> maxUses link = Some m
            \<longrightarrow> currentUses link \<le> m)
       \<and> currentUses l = 0
       \<and> (\<forall>st' i link t now supplied.
            getShareableLink st' i = Some link \<and> expiresAt link = Some (Date t) \<and> t < now
            \<longrightarrow> (\<exists>e. sharedLinkApi st' now i supplied = (Inl e, st'))
              \<and> (\<exists>e. sharedLinkBrowser st' now i = (Inl e, st')))"
proof -
  have "usesWithinBound (runAccesses st1 as) newId"
    using runAccesses_usesWithinBound[OF created_usesWithinBound[OF assms]] by simp
  then have a: "\<forall>link m. getShareableLink (runAccesses st1 as) newId = Some link \<and> maxUses link = Some m
            \<longrightarrow> currentUses link \<le> m"
    by (auto simp: usesWithinBound_def split: option.splits)
  from assms(1) have "l = sanitizedLink newId d"
    by (auto simp: createShareableLink_def split: if_splits)
  then have b: "currentUses l = 0"
    by (simp add: sanitizedLink_def)
  have c: "(\<exists>e. sharedLinkApi st' now i supplied = (Inl e, st'))
              \<and> (\<exists>e. sharedLinkBrowser st' now i = (Inl e, st'))"
    if "getShareableLink st' i = Some link" "expiresAt link = Some (Date t)" "t < now"
    for st' i link t now supplied
  proof -
    have "isExpired link now" using that(2,3) by (simp add: isExpired_iff)
    then show ?thesis
      unfolding sharedLinkApi_Some[OF that(1)] sharedLinkBrowser_Some[OF that(1)] by simp
  qed
  show ?thesis using a b c by blast
qed


lemma trim_examples:
  "trim ''u1'' = ''u1''" "trim ''secret'' = ''secret''" "trim ''L1'' = ''L1''"
  "trim ''file'' = ''file''" "trim ''view'' = ''view''" "trim ''42'' = ''42''"
  by code_simp+

lemma serializeLink_example:
  "serializeLink (exampleLink\<lparr>maxUses := m\<rparr>) = exampleLink\<lparr>maxUses := m\<rparr>"
  by (simp add: serializeLink_def exampleLink_def trim_examples)

lemma sanitizedLink_example:
  "m \<noteq> Some 0 \<Longrightarrow> sanitizedLink ''L1'' (exampleLink\<lparr>maxUses := m\<rparr>) = exampleLink\<lparr>maxUses := m\<rparr>"
  by (simp add: sanitizedLink_def exampleLink_def toLowerCase_examples trim_examples
           split: option.splits)

lemma create_with_cap:
  "m \<noteq> Some 0 \<Longrightarrow> createShareableLink Map.empty ''L1'' (exampleLink\<lparr>maxUses := m\<rparr>)
     = Inr (exampleLink\<lparr>maxUses := m\<rparr>, Map.empty(''L1'' \<mapsto> exampleLink\<lparr>maxUses := m\<rparr>))"
  unfolding createShareableLink_def by (simp add: sanitizedLink_example serializeLink_example)
     (simp add: exampleLink_def)

lemma read_with_cap:
  "m \<noteq> Some 0 \<Longrightarrow> getShareableLink (Map.empty(''L1'' \<mapsto> exampleLink\<lparr>maxUses := m\<rparr>)) ''L1''
     = Some (exampleLink\<lparr>maxUses := m\<rparr>)"
  by (simp add: getShareableLink_def linkData_def exampleLink_def toLowerCase_examples
           split: option.splits)

lemma create_example:
  "createShareableLink Map.empty ''L1'' exampleLink = Inr (exampleLink, exampleLinks)"
  using create_with_cap[of "Some 1"] by (simp add: exampleLinks_def exampleLink_def)

text \<open>
  The bound of claim C8 fails for a \<open>maxUses\<close> that is negative or not whole, both of which
  the creation route passes on (\<open>Number(req.body.maxUses)\<close>) and \<open>createShareableLink\<close>
  keeps. With \<open>maxUses = -1\<close> the link is stored with \<open>currentUses = 0\<close>, above its cap from
  the start. With \<open>maxUses = 1/2\<close> the first access is admitted, as \<open>0 < 1/2\<close>, and leaves
  \<open>currentUses = 1\<close>.
\<close>

theorem use_counter_bound_counterexample:
  "createShareableLink Map.empty ''L1'' (exampleLink\<lparr>maxUses := Some (- 1)\<rparr>)
     = Inr (exampleLink\<lparr>maxUses := Some (- 1)\<rparr>,
            Map.empty(''L1'' \<mapsto> exampleLink\<lparr>maxUses := Some (- 1)\<rparr>))
   \<and> getShareableLink (Map.empty(''L1'' \<mapsto> exampleLink\<lparr>maxUses := Some (- 1)\<rparr>)) ''L1''
     = Some (exampleLink\<lparr>maxUses := Some (- 1)\<rparr>)
   \<and> maxUses (exampleLink\<lparr>maxUses := Some (- 1)\<rparr>) = Some (- 1)
   \<and> currentUses (exampleLink\<lparr>maxUses := Some (- 1)\<rparr>) = 0
   \<and> \<not> currentUses (exampleLink\<lparr>maxUses := Some (- 1)\<rparr>) \<le> - 1
   \<and> createShareableLink Map.empty ''L1'' (exampleLink\<lparr>maxUses := Some (1 / 2)\<rparr>)
     = Inr (exampleLink\<lparr>maxUses := Some (1 / 2)\<rparr>,
            Map.empty(''L1'' \<mapsto> exampleLink\<lparr>maxUses := Some (1 / 2)\<rparr>))
   \<and> getShareableLink
        (runAccesses (Map.empty(''L1'' \<mapsto> exampleLink\<lparr>maxUses := Some (1 / 2)\<rparr>))
           [ApiAccess 1000 ''L1'' (Some ''secret'')])
        ''L1''
     = Some (exampleLink\<lparr>maxUses := Some (1 / 2), currentUses := 1\<rparr>)
   \<and> maxUses (exampleLink\<lparr>maxUses := Some (1 / 2), currentUses := 1\<rparr>) = Some (1 / 2)
   \<and> currentUses (exampleLink\<lparr>maxUses := Some (1 / 2), currentUses := 1\<rparr>) = 1
   \<and> \<not> (1 :: rat) \<le> 1 / 2"
proof -
  have c: "createShareableLink Map.empty ''L1'' (exampleLink\<lparr>maxUses := Some (- 1)\<rparr>)
     = Inr (exampleLink\<lparr>maxUses := Some (- 1)\<rparr>,
            Map.empty(''L1'' \<mapsto> exampleLink\<lparr>maxUses := Some (- 1)\<rparr>))"
    by (rule create_with_cap) simp
  have g: "getShareableLink (Map.empty(''L1'' \<mapsto> exampleLink\<lparr>maxUses := Some (- 1)\<rparr>)) ''L1''
     = Some (exampleLink\<lparr>maxUses := Some (- 1)\<rparr>)"
    by (rule read_with_cap) simp
  have c2: "createShareableLink Map.empty ''L1'' (exampleLink\<lparr>maxUses := Some (1 / 2)\<rparr>)
     = Inr (exampleLink\<lparr>maxUses := Some (1 / 2)\<rparr>,
            Map.empty(''L1'' \<mapsto> exampleLink\<lparr>maxUses := Some (1 / 2)\<rparr>))"
    by (rule create_with_cap) simp
  have g2: "getShareableLink (Map.empty(''L1'' \<mapsto> exampleLink\<lparr>maxUses := Some (1 / 2)\<rparr>)) ''L1''
     = Some (exampleLink\<lparr>maxUses := Some (1 / 2)\<rparr>)"
    by (rule read_with_cap) simp
  have one: "snd (sharedLinkApi (Map.empty(''L1'' \<mapsto> exampleLink\<lparr>maxUses := Some (1 / 2)\<rparr>)) 1000 ''L1''
                    (Some ''secret''))
      = updateShareableLink (Map.empty(''L1'' \<mapsto> exampleLink\<lparr>maxUses := Some (1 / 2)\<rparr>)) ''L1'' 1"
    unfolding sharedLinkApi_Some[OF g2]
    by (simp add: exampleLink_def isExpired_def usageExceeded_def passwordRejected_def)
  have r: "getShareableLink
        (runAccesses (Map.empty(''L1'' \<mapsto> exampleLink\<lparr>maxUses := Some (1 / 2)\<rparr>))
           [ApiAccess 1000 ''L1'' (Some ''secret'')])
        ''L1''
     = Some (exampleLink\<lparr>maxUses := Some (1 / 2), currentUses := 1\<rparr>)"
    using getShareableLink_update_same[OF g2, of 1] by (simp add: one)
  show ?thesis using c g c2 r by (simp add: exampleLink_def)
qed

text \<open>
  Scenario C of the specification: a link with \<open>maxUses = 1\<close>; the first access takes the
  counter to one, the second is refused and the counter stays at one.
\<close>

theorem use_counter_bound_witness:
  "createShareableLink Map.empty ''L1'' exampleLink = Inr (exampleLink, exampleLinks)
   \<and> getShareableLink
        (runAccesses exampleLinks [ApiAccess 1000 ''L1'' (Some ''secret''), BrowserAccess 1000 ''L1''])
        ''L1'' = Some (exampleLink\<lparr>currentUses := 1\<rparr>)
   \<and> maxUses (exampleLink\<lparr>currentUses := 1\<rparr>) = Some 1
   \<and> currentUses (exampleLink\<lparr>currentUses := 1\<rparr>) \<le> 1
   \<and> (\<exists>e. sharedLinkApi exampleLinks 3000 ''L1'' (Some ''secret'') = (Inl e, exampleLinks))"
proof -
  let ?as = "[ApiAccess 1000 ''L1'' (Some ''secret''), BrowserAccess 1000 ''L1'']"
  have pos: "\<forall>m. maxUses exampleLink = Some m \<longrightarrow> 0 \<le> m \<and> isWhole m"
    by (simp add: exampleLink_def isWhole_def)
  have one: "snd (sharedLinkApi exampleLinks 1000 ''L1'' (Some ''secret''))
      = updateShareableLink exampleLinks ''L1'' 1"
    unfolding sharedLinkApi_Some[OF exampleLinks_read]
    by (simp add: exampleLink_def isExpired_def usageExceeded_def passwordRejected_def)
  have read1: "getShareableLink (updateShareableLink exampleLinks ''L1'' 1) ''L1''
      = Some (exampleLink\<lparr>currentUses := 1\<rparr>)"
    by (rule getShareableLink_update_same[OF exampleLinks_read])
  have two: "snd (sharedLinkBrowser (updateShareableLink exampleLinks ''L1'' 1) 1000 ''L1'')
      = updateShareableLink exampleLinks ''L1'' 1"
    unfolding sharedLinkBrowser_Some[OF read1]
    by (simp add: exampleLink_def isExpired_def usageExceeded_def)
  have run: "getShareableLink (runAccesses exampleLinks ?as) ''L1'' = Some (exampleLink\<lparr>currentUses := 1\<rparr>)"
    by (simp add: one two read1)
  have m: "maxUses (exampleLink\<lparr>currentUses := 1\<rparr>) = Some 1"
    by (simp add: exampleLink_def)
  note T = use_counter_bound[OF create_example pos, of ?as]
  from T have A: "\<forall>link m. getShareableLink (runAccesses exampleLinks ?as) ''L1'' = Some link
        \<and> maxUses link = Some m \<longrightarrow> currentUses link \<le> m"
    by blast
  from T have C: "\<forall>st' i link t now supplied.
            getShareableLink st' i = Some link \<and> expiresAt link = Some (Date t) \<and> t < now
            \<longrightarrow> (\<exists>e. sharedLinkApi st' now i supplied = (Inl e, st'))
              \<and> (\<exists>e. sharedLinkBrowser st' now i = (Inl e, st'))"
    by blast
  have x: "expiresAt exampleLink = Some (Date 2000)" "(2000::int) < 3000"
    by (simp_all add: exampleLink_def)
  from A run m have "currentUses (exampleLink\<lparr>currentUses := 1\<rparr>) \<le> 1"
    by blast
  moreover from C exampleLinks_read x
  have "\<exists>e. sharedLinkApi exampleLinks 3000 ''L1'' (Some ''secret'') = (Inl e, exampleLinks)"
    by blast
  ultimately have "currentUses (exampleLink\<lparr>currentUses := 1\<rparr>) \<le> 1
    \<and> (\<exists>e. sharedLinkApi exampleLinks 3000 ''L1'' (Some ''secret'') = (Inl e, exampleLinks))"
    by blast
  then show ?thesis using create_example run m by blast
qed

section \<open>Properties of restore\<close>

lemma getFile_SomeD: "getFile store i = Some f \<Longrightarrow> fileId f = i \<and> f \<in> set store"
  by (induction store) (auto split: if_splits)

lemma getFile_None_iff: "getFile store i = None \<longleftrightarrow> i \<notin> set (map fileId store)"
  by (induction store) auto

lemma getFile_map_replace:
  assumes "fileId g = i"
  shows "getFile (map (\<lambda>f. if fileId f = i then g else f) store) j
         = (if j = i then (if getFile store i = None then None else Some g) else getFile store j)"
  using assms by (induction store) auto

lemma getFile_putFile_same:
  assumes "getFile store i = Some f" and "fileId g = i"
  shows "getFile (putFile store g) i = Some g"
proof -
  from assms(1) have "i \<in> set (map fileId store)"
    using getFile_None_iff[of store i] by simp
  then show ?thesis
    using assms by (simp add: putFile_def getFile_map_replace)
qed

lemma getFile_append: "getFile (xs @ ys) j = (case getFile xs j of None \<Rightarrow> getFile ys j | Some f \<Rightarrow> Some f)"
  by (induction xs) auto

lemma getFile_putFile_other:
  assumes "j \<noteq> fileId g"
  shows "getFile (putFile store g) j = getFile store j"
  using assms by (auto simp: putFile_def getFile_map_replace getFile_append split: option.splits)

lemma restoreUpdate_fields:
  "deletionStatus (restoreUpdate file existing) = Active"
  "deletedAt (restoreUpdate file existing) = None"
  "deletedBy (restoreUpdate file existing) = None"
  "scheduledDeletionAt (restoreUpdate file existing) = None"
  "fileId (restoreUpdate file existing) = fileId existing"
  "originalName (restoreUpdate file existing) = originalName existing"
  "version (restoreUpdate file existing) = version existing"
  "status (restoreUpdate file existing) = status existing"
  "projectId (restoreUpdate file existing) = projectId existing"
  "taskId (restoreUpdate file existing) = taskId existing"
  "parentFolderId (restoreUpdate file existing) = parentFolderId existing"
  by (simp_all add: restoreUpdate_def Let_def)

lemma isHashName_nonempty: "isHashName s \<Longrightarrow> s \<noteq> []"
  by (auto simp: isHashName_def)

lemma restoreUpdate_name:
  "name (restoreUpdate file file)
     = (if isHashName (name file) \<and> originalName file \<noteq> [] \<and> CHR ''.'' \<in> set (originalName file)
        then originalName file else name file)"
  using isHashName_nonempty[of "name file"] by (auto simp: restoreUpdate_def Let_def)

text \<open>
  Claim C7 (restore contract). For a stored file: when its lifecycle status is not
  \<open>deleted\<close>, restore fails and the store is unchanged; when it is \<open>deleted\<close>, restore
  succeeds, the record reads back with status \<open>active\<close> and with \<open>deletedAt\<close>, \<open>deletedBy\<close>
  and \<open>scheduledDeletionAt\<close> cleared, its display name is the original filename if the
  display name was 32 lower-case hexadecimal characters and the original filename is
  present and has a dot, and is unchanged otherwise; every other record reads back as
  before. (\<open>AwsStorage.updateFile\<close> refuses an id that is not positive; ids are clock values
  or serial numbers.)
\<close>

theorem restoreFile_contract:
  assumes "getFile store i = Some file"
  shows "(deletionStatus file \<noteq> Deleted
            \<longrightarrow> (\<exists>e. restoreFile storage store now (Some i) = (Inl e, store)))
       \<and> (deletionStatus file = Deleted \<and> (storage = MemStorage \<or> 0 < i)
            \<longrightarrow> (\<exists>restored store'.
                   restoreFile storage store now (Some i) = (Inr restored, store')
                 \<and> getFile store' i = Some restored
                 \<and> (\<forall>j. j \<noteq> i \<longrightarrow> getFile store' j = getFile store j)
                 \<and> deletionStatus restored = Active
                 \<and> deletedAt restored = None
                 \<and> deletedBy restored = None
                 \<and> scheduledDeletionAt restored = None
                 \<and> name restored
                     = (if isHashName (name file) \<and> originalName file \<noteq> []
                           \<and> CHR ''.'' \<in> set (originalName file)
                        then originalName file else name file)
                 \<and> originalName restored = originalName file
                 \<and> version restored = version file
                 \<and> status restored = status file))"
proof (intro conjI impI)
  assume "deletionStatus file \<noteq> Deleted"
  then show "\<exists>e. restoreFile storage store now (Some i) = (Inl e, store)"
    using assms by (simp add: restoreFile_def)
next
  assume a: "deletionStatus file = Deleted \<and> (storage = MemStorage \<or> 0 < i)"
  let ?r = "(restoreUpdate file file)\<lparr>updatedAt := now\<rparr>"
  have id: "fileId file = i" using getFile_SomeD[OF assms] by simp
  have ok: "\<not> (storage = AwsStorage \<and> i \<le> 0)" using a by auto
  have u: "updateFile storage store now i (restoreUpdate file) = Inr (?r, putFile store ?r)"
    using assms ok by (simp add: updateFile_def)
  have r: "restoreFile storage store now (Some i) = (Inr ?r, putFile store ?r)"
    using assms a u by (simp add: restoreFile_def)
  have idr: "fileId ?r = i" using id by (simp add: restoreUpdate_fields)
  have g: "getFile (putFile store ?r) i = Some ?r"
    by (rule getFile_putFile_same[OF assms idr])
  have o: "\<forall>j. j \<noteq> i \<longrightarrow> getFile (putFile store ?r) j = getFile store j"
    using idr getFile_putFile_other[of _ ?r store] by simp
  show "\<exists>restored store'.
                   restoreFile storage store now (Some i) = (Inr restored, store')
                 \<and> getFile store' i = Some restored
                 \<and> (\<forall>j. j \<noteq> i \<longrightarrow> getFile store' j = getFile store j)
                 \<and> deletionStatus restored = Active
                 \<and> deletedAt restored = None
                 \<and> deletedBy restored = None
                 \<and> scheduledDeletionAt restored = None
                 \<and> name restored
                     = (if isHashName (name file) \<and> originalName file \<noteq> []
                           \<and> CHR ''.'' \<in> set (originalName file)
                        then originalName file else name file)
                 \<and> originalName restored = originalName file
                 \<and> version restored = version file
                 \<and> status restored = status file"
    apply (rule exI[of _ ?r], rule exI[of _ "putFile store ?r"])
    using r g o by (simp add: restoreUpdate_fields restoreUpdate_name)
qed

lemma corruptedFile_hash: "isHashName (name corruptedFile)" "CHR ''.'' \<in> set (originalName corruptedFile)"
  by code_simp+

text \<open>
  Scenario D of the specification: the display name is a hash, the original filename is
  \<open>site-plan.dwg\<close>; and restoring a file that is not in the trash fails.
\<close>

theorem restoreFile_contract_witness:
  "(\<exists>restored store'.
       restoreFile AwsStorage [planV1, corruptedFile] 500 (Some 9) = (Inr restored, store')
     \<and> getFile store' 9 = Some restored
     \<and> deletionStatus restored = Active \<and> deletedAt restored = None
     \<and> deletedBy restored = None \<and> scheduledDeletionAt restored = None
     \<and> name restored = ''site-plan.dwg'')
   \<and> (\<exists>e. restoreFile AwsStorage [planV1, corruptedFile] 500 (Some 1) = (Inl e, [planV1, corruptedFile]))"
proof -
  have g9: "getFile [planV1, corruptedFile] 9 = Some corruptedFile"
    by (simp add: planV1_def corruptedFile_def)
  have g1: "getFile [planV1, corruptedFile] 1 = Some planV1"
    by (simp add: planV1_def)
  have d9: "deletionStatus corruptedFile = Deleted \<and> (AwsStorage = MemStorage \<or> (0::int) < 9)"
    by (simp add: corruptedFile_def)
  have d1: "deletionStatus planV1 \<noteq> Deleted"
    by (simp add: planV1_def)
  have o: "originalName corruptedFile = ''site-plan.dwg''"
    by (simp add: corruptedFile_def)
  from restoreFile_contract[OF g9, of AwsStorage 500] d9
  have "\<exists>restored store'.
       restoreFile AwsStorage [planV1, corruptedFile] 500 (Some 9) = (Inr restored, store')
     \<and> getFile store' 9 = Some restored
     \<and> deletionStatus restored = Active \<and> deletedAt restored = None
     \<and> deletedBy restored = None \<and> scheduledDeletionAt restored = None
     \<and> name restored = ''site-plan.dwg''"
    using corruptedFile_hash o by auto
  moreover from restoreFile_contract[OF g1, of AwsStorage 500] d1
  have "\<exists>e. restoreFile AwsStorage [planV1, corruptedFile] 500 (Some 1) = (Inl e, [planV1, corruptedFile])"
    by blast
  ultimately show ?thesis by blast
qed

section \<open>Properties of soft-delete\<close>

lemma trashUpdate_fields:
  "deletionStatus (trashUpdate u s d p r) = Deleted"
  "deletedAt (trashUpdate u s d p r) = Some d"
  "deletedBy (trashUpdate u s d p r) = Some u"
  "scheduledDeletionAt (trashUpdate u s d p r) = Some (s + sixtyDays)"
  "updatedAt (trashUpdate u s d p r) = p"
  by (simp_all add: trashUpdate_def)

lemma trashUpdate_fileId: "fileId (trashUpdate u s d p (f :: File)) = fileId f"
  by (simp add: trashUpdate_def)

lemma foldl_updateItem:
  assumes "distinct (map fileId cs)" and "\<And>f. fileId (g f) = fileId f"
  shows "foldl (\<lambda>s c. updateItem s (fileId c) g) store cs
         = map (\<lambda>f. if fileId f \<in> set (map fileId cs) then g f else f) store"
  using assms(1)
proof (induction cs arbitrary: store)
  case Nil
  then show ?case by simp
next
  case (Cons c cs)
  have "foldl (\<lambda>s c. updateItem s (fileId c) g) store (c # cs)
        = foldl (\<lambda>s c. updateItem s (fileId c) g) (updateItem store (fileId c) g) cs"
    by simp
  also have "\<dots> = map (\<lambda>f. if fileId f \<in> set (map fileId cs) then g f else f)
                       (updateItem store (fileId c) g)"
    using Cons by simp
  also have "\<dots> = map (\<lambda>f. if fileId f \<in> set (map fileId (c # cs)) then g f else f) store"
    using Cons.prems assms(2) by (auto simp: updateItem_def)
  finally show ?case .
qed

lemma distinct_filter_ids:
  assumes "distinct (map fileId store)" and "f \<in> set store"
  shows "fileId f \<in> set (map fileId (filter P store)) \<longleftrightarrow> P f"
proof
  assume "fileId f \<in> set (map fileId (filter P store))"
  then obtain g where g: "g \<in> set store" "P g" "fileId g = fileId f" by auto
  from assms(1) have "inj_on fileId (set store)" by (simp add: distinct_map)
  with g assms(2) have "g = f" by (auto dest: inj_onD)
  with g show "P f" by simp
next
  assume "P f"
  with assms(2) show "fileId f \<in> set (map fileId (filter P store))" by auto
qed

lemma moveFileToTrash_aws:
  assumes "getFile store i = Some file" and "distinct (map fileId store)"
  shows "moveFileToTrash AwsStorage store tSched tDel tUpd userId (Some i)
         = (Inr \<lparr> versionsDeleted =
                    length (filter (\<lambda>f. originalName f
                                          = (if originalName file = [] then name file else originalName file)
                                        \<and> deletionStatus f \<noteq> Deleted) store),
                  trashedFile = trashUpdate userId tSched tDel tUpd file,
                  recoveryDeadline = tSched + sixtyDays \<rparr>,
            map (\<lambda>f. if originalName f
                          = (if originalName file = [] then name file else originalName file)
                        \<and> deletionStatus f \<noteq> Deleted
                      then trashUpdate userId tSched tDel tUpd f else f) store)"
proof -
  let ?key = "if originalName file = [] then name file else originalName file"
  let ?P = "\<lambda>f. originalName f = ?key \<and> deletionStatus f \<noteq> Deleted"
  let ?g = "trashUpdate userId tSched tDel tUpd :: File \<Rightarrow> File"
  have fl: "filter (\<lambda>f. deletionStatus f \<noteq> Deleted) (filter (\<lambda>f. originalName f = ?key) store)
            = filter ?P store"
    by (simp add: conj_commute)
  have d: "distinct (map fileId (filter ?P store))"
    using assms(2) by (rule distinct_map_filter)
  have "foldl (\<lambda>s c. updateItem s (fileId c) ?g) store (filter ?P store)
        = map (\<lambda>f. if fileId f \<in> set (map fileId (filter ?P store)) then ?g f else f) store"
    by (rule foldl_updateItem[OF d]) (simp add: trashUpdate_fileId)
  also have "\<dots> = map (\<lambda>f. if ?P f then ?g f else f) store"
    by (rule map_cong[OF refl]) (simp only: distinct_filter_ids[OF assms(2)])
  finally have st: "foldl (\<lambda>s c. updateItem s (fileId c) ?g) store (filter ?P store)
        = map (\<lambda>f. if ?P f then ?g f else f) store" .
  show ?thesis
    unfolding moveFileToTrash_def using assms(1) by (simp add: Let_def fl st)
qed

lemma moveFileToTrash_mem:
  assumes "getFile store i = Some file"
  shows "moveFileToTrash MemStorage store tSched tDel tUpd userId (Some i)
         = (Inr \<lparr> versionsDeleted = 1,
                  trashedFile = trashUpdate userId tSched tDel tUpd file,
                  recoveryDeadline = tSched + sixtyDays \<rparr>,
            map (\<lambda>f. if fileId f = i then trashUpdate userId tSched tDel tUpd file else f) store)"
proof -
  have id: "fileId file = i" using getFile_SomeD[OF assms] by simp
  have m: "i \<in> set (map fileId store)" using assms getFile_None_iff[of store i] by simp
  have u: "(trashUpdate userId tSched tDel tUpd file)\<lparr>updatedAt := tUpd\<rparr>
           = trashUpdate userId tSched tDel tUpd file"
    by (simp add: trashUpdate_def)
  show ?thesis
    unfolding moveFileToTrash_def updateFile_def using assms m id
    by (simp add: u putFile_def trashUpdate_fileId)
qed


lemma zip_map_self: "zip xs (map h xs) = map (\<lambda>x. (x, h x)) xs"
  by (induction xs) auto


lemma trashUpdate_changes:
  "deletionStatus (f :: File) \<noteq> Deleted \<Longrightarrow> trashUpdate u s d p f \<noteq> f"
proof
  assume a: "deletionStatus f \<noteq> Deleted" and "trashUpdate u s d p f = f"
  then have "deletionStatus (trashUpdate u s d p f) = deletionStatus f" by simp
  with a show False by (simp add: trashUpdate_fields)
qed

lemma count_changed:
  fixes g :: "File \<Rightarrow> File"
  assumes "\<And>f. P f \<Longrightarrow> g f \<noteq> f"
  shows "length (filter (\<lambda>(f, f'). f' \<noteq> f) (zip store (map (\<lambda>f. if P f then g f else f) store)))
         = length (filter P store)"
proof -
  have "(\<lambda>x. (if P x then g x else x) \<noteq> x) = P"
    using assms by auto
  then show ?thesis
    unfolding zip_map_self filter_map by (simp add: comp_def)
qed


lemma zip_map_all:
  assumes "\<And>f. f \<in> set store \<Longrightarrow> Q f (h f)"
  shows "\<forall>(f, f') \<in> set (zip store (map h store)). Q f f'"
  using assms by (auto simp: zip_map_self)

text \<open>
  Claim C2 (container atomicity of soft-delete), as the code has it. Soft-deleting a stored
  file with an original filename, in a store with one record per id:
  on \<open>AwsStorage\<close> every active member of the file's lineage is stamped (status \<open>deleted\<close>,
  the deleter, the delete time, and the one deadline of 60 days after the handler's clock
  reading), no record with another original filename is touched, every record that
  changes is stamped with the same values, and the count returned is the number of
  records that changed; on any other store exactly the named record is stamped and the
  count is 1.
\<close>

theorem moveFileToTrash_container:
  assumes "getFile store i = Some file" and "originalName file \<noteq> []"
    and "distinct (map fileId store)"
  shows "(\<exists>resp store'.
            moveFileToTrash AwsStorage store tSched tDel tUpd userId (Some i) = (Inr resp, store')
          \<and> map fileId store' = map fileId store
          \<and> (\<forall>(f, f') \<in> set (zip store store').
                (sameLineage file f \<and> deletionStatus f = Active
                   \<longrightarrow> f' = trashUpdate userId tSched tDel tUpd f
                     \<and> deletionStatus f' = Deleted \<and> deletedBy f' = Some userId
                     \<and> deletedAt f' = Some tDel
                     \<and> scheduledDeletionAt f' = Some (tSched + sixtyDays))
              \<and> (originalName f \<noteq> originalName file \<longrightarrow> f' = f)
              \<and> (f' \<noteq> f \<longrightarrow> f' = trashUpdate userId tSched tDel tUpd f))
          \<and> versionsDeleted resp = length (filter (\<lambda>(f, f'). f' \<noteq> f) (zip store store'))
          \<and> recoveryDeadline resp = tSched + sixtyDays)
       \<and> (\<exists>resp store'.
            moveFileToTrash MemStorage store tSched tDel tUpd userId (Some i) = (Inr resp, store')
          \<and> map fileId store' = map fileId store
          \<and> (\<forall>(f, f') \<in> set (zip store store').
                f' = (if fileId f = i then trashUpdate userId tSched tDel tUpd f else f))
          \<and> versionsDeleted resp = 1
          \<and> recoveryDeadline resp = tSched + sixtyDays)"
proof (rule conjI)
  let ?g = "trashUpdate userId tSched tDel tUpd :: File \<Rightarrow> File"
  let ?P = "\<lambda>f. originalName f = originalName file \<and> deletionStatus f \<noteq> Deleted"
  let ?h = "\<lambda>f. if ?P f then ?g f else f"
  have aws: "moveFileToTrash AwsStorage store tSched tDel tUpd userId (Some i)
         = (Inr \<lparr> versionsDeleted = length (filter ?P store),
                  trashedFile = ?g file, recoveryDeadline = tSched + sixtyDays \<rparr>,
            map ?h store)"
    using moveFileToTrash_aws[OF assms(1,3), of tSched tDel tUpd userId] assms(2) by simp
  have ids: "map fileId (map ?h store) = map fileId store"
    by (simp add: trashUpdate_fileId)
  have cnt: "length (filter (\<lambda>(f, f'). f' \<noteq> f) (zip store (map ?h store))) = length (filter ?P store)"
    by (rule count_changed) (simp add: trashUpdate_changes)
  have each: "\<forall>(f, f') \<in> set (zip store (map ?h store)).
                (sameLineage file f \<and> deletionStatus f = Active
                   \<longrightarrow> f' = ?g f
                     \<and> deletionStatus f' = Deleted \<and> deletedBy f' = Some userId
                     \<and> deletedAt f' = Some tDel
                     \<and> scheduledDeletionAt f' = Some (tSched + sixtyDays))
              \<and> (originalName f \<noteq> originalName file \<longrightarrow> f' = f)
              \<and> (f' \<noteq> f \<longrightarrow> f' = ?g f)"
  proof (rule zip_map_all)
    fix f
    show "(sameLineage file f \<and> deletionStatus f = Active
                   \<longrightarrow> ?h f = ?g f
                     \<and> deletionStatus (?h f) = Deleted \<and> deletedBy (?h f) = Some userId
                     \<and> deletedAt (?h f) = Some tDel
                     \<and> scheduledDeletionAt (?h f) = Some (tSched + sixtyDays))
              \<and> (originalName f \<noteq> originalName file \<longrightarrow> ?h f = f)
              \<and> (?h f \<noteq> f \<longrightarrow> ?h f = ?g f)"
    proof (cases "?P f")
      case True
      then show ?thesis by (simp add: trashUpdate_fields)
    next
      case False
      then have "?h f = f" by auto
      moreover from False have "\<not> (sameLineage file f \<and> deletionStatus f = Active)"
        by (auto simp: sameLineage_def)
      ultimately show ?thesis by (auto simp: trashUpdate_fields)
    qed
  qed
  show "\<exists>resp store'.
            moveFileToTrash AwsStorage store tSched tDel tUpd userId (Some i) = (Inr resp, store')
          \<and> map fileId store' = map fileId store
          \<and> (\<forall>(f, f') \<in> set (zip store store').
                (sameLineage file f \<and> deletionStatus f = Active
                   \<longrightarrow> f' = trashUpdate userId tSched tDel tUpd f
                     \<and> deletionStatus f' = Deleted \<and> deletedBy f' = Some userId
                     \<and> deletedAt f' = Some tDel
                     \<and> scheduledDeletionAt f' = Some (tSched + sixtyDays))
              \<and> (originalName f \<noteq> originalName file \<longrightarrow> f' = f)
              \<and> (f' \<noteq> f \<longrightarrow> f' = trashUpdate userId tSched tDel tUpd f))
          \<and> versionsDeleted resp = length (filter (\<lambda>(f, f'). f' \<noteq> f) (zip store store'))
          \<and> recoveryDeadline resp = tSched + sixtyDays"
    apply (intro exI conjI)
        apply (rule aws)
       apply (rule ids)
      apply (rule each)
     apply (simp only: cnt trashResponse.simps)
    apply (simp only: trashResponse.simps)
    done
next
  let ?g = "trashUpdate userId tSched tDel tUpd :: File \<Rightarrow> File"
  let ?h = "\<lambda>f. if fileId f = i then ?g file else f"
  have mem: "moveFileToTrash MemStorage store tSched tDel tUpd userId (Some i)
         = (Inr \<lparr> versionsDeleted = 1, trashedFile = ?g file,
                  recoveryDeadline = tSched + sixtyDays \<rparr>,
            map ?h store)"
    by (rule moveFileToTrash_mem[OF assms(1)])
  have fi: "fileId file = i" "file \<in> set store" using getFile_SomeD[OF assms(1)] by simp_all
  have inj: "inj_on fileId (set store)" using assms(3) by (simp add: distinct_map)
  have same: "f = file" if "f \<in> set store" "fileId f = i" for f
    using inj that fi by (auto dest: inj_onD)
  have ids: "map fileId (map ?h store) = map fileId store"
    using fi by (simp add: trashUpdate_fileId)
  have each: "\<forall>(f, f') \<in> set (zip store (map ?h store)).
                f' = (if fileId f = i then ?g f else f)"
  proof (rule zip_map_all)
    fix f assume "f \<in> set store"
    then show "?h f = (if fileId f = i then ?g f else f)"
      using same[of f] by simp
  qed
  show "\<exists>resp store'.
            moveFileToTrash MemStorage store tSched tDel tUpd userId (Some i) = (Inr resp, store')
          \<and> map fileId store' = map fileId store
          \<and> (\<forall>(f, f') \<in> set (zip store store').
                f' = (if fileId f = i then trashUpdate userId tSched tDel tUpd f else f))
          \<and> versionsDeleted resp = 1
          \<and> recoveryDeadline resp = tSched + sixtyDays"
    apply (intro exI conjI)
        apply (rule mem)
       apply (rule ids)
      apply (rule each)
     apply (simp only: trashResponse.simps)
    apply (simp only: trashResponse.simps)
    done
qed


text \<open>
  Claim C2 as stated fails on the fallback store: \<open>planV1\<close> and \<open>planV2\<close> are the two
  active versions of one lineage, deleting \<open>planV2\<close> leaves \<open>planV1\<close> active and reports
  one version. On \<open>AwsStorage\<close> the scan takes no scope: \<open>otherProjectPlan\<close>, the same
  filename in another project, is stamped with them.
\<close>

theorem container_atomicity_counterexample:
  "sameLineage planV2 planV1 \<and> deletionStatus planV1 = Active
   \<and> moveFileToTrash MemStorage [planV1, planV2] 1000 1001 1002 ''u9'' (Some 2)
       = (Inr \<lparr> versionsDeleted = 1,
                trashedFile = trashUpdate ''u9'' 1000 1001 1002 planV2,
                recoveryDeadline = 1000 + sixtyDays \<rparr>,
          [planV1, trashUpdate ''u9'' 1000 1001 1002 planV2])
   \<and> \<not> sameLineage planV2 otherProjectPlan
   \<and> moveFileToTrash AwsStorage [planV1, planV2, otherProjectPlan] 1000 1001 1002 ''u9'' (Some 2)
       = (Inr \<lparr> versionsDeleted = 3,
                trashedFile = trashUpdate ''u9'' 1000 1001 1002 planV2,
                recoveryDeadline = 1000 + sixtyDays \<rparr>,
          [trashUpdate ''u9'' 1000 1001 1002 planV1, trashUpdate ''u9'' 1000 1001 1002 planV2,
           trashUpdate ''u9'' 1000 1001 1002 otherProjectPlan])"
  by code_simp

text \<open>
  Scenario B of the specification on \<open>AwsStorage\<close>: both versions are stamped with the
  same deadline; and the fallback on the same store.
\<close>

theorem moveFileToTrash_container_witness:
  "(\<exists>resp store'.
       moveFileToTrash AwsStorage [planV1, planV2] 1000 1001 1002 ''u9'' (Some 2) = (Inr resp, store')
     \<and> store' = [trashUpdate ''u9'' 1000 1001 1002 planV1, trashUpdate ''u9'' 1000 1001 1002 planV2]
     \<and> versionsDeleted resp = 2
     \<and> scheduledDeletionAt (store' ! 0) = Some (1000 + sixtyDays)
     \<and> scheduledDeletionAt (store' ! 1) = Some (1000 + sixtyDays))
   \<and> (\<exists>resp store'.
       moveFileToTrash MemStorage [planV1, planV2] 1000 1001 1002 ''u9'' (Some 2) = (Inr resp, store')
     \<and> store' = [planV1, trashUpdate ''u9'' 1000 1001 1002 planV2]
     \<and> versionsDeleted resp = 1)"
proof -
  have h: "getFile [planV1, planV2] 2 = Some planV2" "originalName planV2 \<noteq> []"
    "distinct (map fileId [planV1, planV2])"
    by code_simp+
  note T = moveFileToTrash_container[OF h, of 1000 1001 1002 "''u9''"]
  from T obtain resp store' where
    a: "moveFileToTrash AwsStorage [planV1, planV2] 1000 1001 1002 ''u9'' (Some 2) = (Inr resp, store')"
    by blast
  from T obtain resp2 store2 where
    m: "moveFileToTrash MemStorage [planV1, planV2] 1000 1001 1002 ''u9'' (Some 2) = (Inr resp2, store2)"
    by blast
  have ea: "moveFileToTrash AwsStorage [planV1, planV2] 1000 1001 1002 ''u9'' (Some 2)
       = (Inr \<lparr> versionsDeleted = 2,
                trashedFile = trashUpdate ''u9'' 1000 1001 1002 planV2,
                recoveryDeadline = 1000 + sixtyDays \<rparr>,
          [trashUpdate ''u9'' 1000 1001 1002 planV1, trashUpdate ''u9'' 1000 1001 1002 planV2])"
    by code_simp
  have em: "moveFileToTrash MemStorage [planV1, planV2] 1000 1001 1002 ''u9'' (Some 2)
       = (Inr \<lparr> versionsDeleted = 1,
                trashedFile = trashUpdate ''u9'' 1000 1001 1002 planV2,
                recoveryDeadline = 1000 + sixtyDays \<rparr>,
          [planV1, trashUpdate ''u9'' 1000 1001 1002 planV2])"
    by code_simp
  show ?thesis
    using a m unfolding ea em by (auto simp: trashUpdate_fields)
qed

section \<open>Properties of the version manager\<close>

text \<open>
  For an upload with its project, task and folder given, into a lineage with no purged
  record, the records \<open>getFilesByOriginalName\<close> finds are exactly the active members of
  the lineage.
\<close>

lemma activeLineage_filter:
  assumes "oname = originalName d" and "projectId d = Some p" and "taskId d = Some t"
    and "parentFolderId d = Some fo" and "fo \<noteq> ''undefined''"
    and "\<forall>f \<in> set store. sameLineage d f \<longrightarrow> deletionStatus f \<noteq> PermanentlyDeleted"
  shows "getFilesByOriginalName store oname (Some p) (Some t) (Some fo)
         = filter (\<lambda>f. sameLineage d f \<and> deletionStatus f = Active) store"
proof -
  have "getFilesByOriginalName store oname (Some p) (Some t) (Some fo)
        = filter (\<lambda>f. originalName f = oname \<and> deletionStatus f \<noteq> Deleted
                       \<and> projectId f = Some p \<and> taskId f = Some t
                       \<and> jsString (parentFolderId f) = fo) store"
    by (simp add: getFilesByOriginalName_def conj_commute conj_left_commute)
  also have "\<dots> = filter (\<lambda>f. sameLineage d f \<and> deletionStatus f = Active) store"
  proof (rule filter_cong[OF refl])
    fix f assume f: "f \<in> set store"
    have folder: "jsString (parentFolderId f) = fo \<longleftrightarrow> parentFolderId f = Some fo"
      using assms(5) by (cases "parentFolderId f") (auto simp: jsString_def)
    have same: "sameLineage d f \<longleftrightarrow> originalName f = oname \<and> projectId f = Some p
                  \<and> taskId f = Some t \<and> parentFolderId f = Some fo"
      using assms(1-4) by (simp add: sameLineage_def)
    show "(originalName f = oname \<and> deletionStatus f \<noteq> Deleted
                       \<and> projectId f = Some p \<and> taskId f = Some t
                       \<and> jsString (parentFolderId f) = fo)
          = (sameLineage d f \<and> deletionStatus f = Active)"
    proof (cases "sameLineage d f")
      case True
      with assms(6) f have "deletionStatus f \<noteq> PermanentlyDeleted" by blast
      then have "deletionStatus f \<noteq> Deleted \<longleftrightarrow> deletionStatus f = Active"
        by (cases "deletionStatus f") simp_all
      with True show ?thesis unfolding folder same by blast
    next
      case False
      then show ?thesis unfolding folder same by blast
    qed
  qed
  finally show ?thesis .
qed

lemma handleFileVersioning_numbering:
  assumes "originalName d \<noteq> []"
    and "projectId d = Some p" and "p \<noteq> 0" and "taskId d = Some t" and "t \<noteq> 0"
    and "parentFolderId d = Some fo" and "fo \<noteq> []" and "fo \<noteq> ''undefined''"
    and "\<forall>f \<in> set store. sameLineage d f \<longrightarrow> deletionStatus f \<noteq> PermanentlyDeleted"
  shows "version (fst (handleFileVersioning store now d))
           = (if filter (\<lambda>f. sameLineage d f \<and> deletionStatus f = Active) store = [] then ''1.0''
              else showNat (length (filter (\<lambda>f. sameLineage d f \<and> deletionStatus f = Active) store) + 1)
                   @ ''.0'')
       \<and> status (fst (handleFileVersioning store now d)) = ''Current''
       \<and> snd (handleFileVersioning store now d)
           = map fileId (filter (\<lambda>f. sameLineage d f \<and> deletionStatus f = Active) store)"
proof -
  let ?d = "d\<lparr> version := (if version d = [] then ''1.0'' else version d),
               status := (if status d = [] then ''Current'' else status d) \<rparr>"
  let ?act = "filter (\<lambda>f. sameLineage d f \<and> deletionStatus f = Active) store"
  have l: "sameLineage ?d = sameLineage d"
    by (rule ext) (simp add: sameLineage_def)
  have g: "getFilesByOriginalName store (originalName ?d) (truthyNumber (projectId ?d))
             (truthyNumber (taskId ?d)) (truthyString (parentFolderId ?d)) = ?act"
    using activeLineage_filter[of "originalName d" d p t fo store] assms
    by (simp add: truthyNumber_def truthyString_def)
  have a: "filter (\<lambda>f. deletionStatus f \<noteq> Deleted) ?act = ?act"
    by (induction store) auto
  show ?thesis
    unfolding handleFileVersioning_def Let_def g a using assms(1) by simp
qed


lemma trim_id:
  assumes "s \<noteq> []" and "\<not> isSpace (hd s)" and "\<not> isSpace (last s)"
  shows "trim s = s"
proof -
  from assms(1,2) have a: "dropWhile isSpace s = s"
    by (cases s) simp_all
  from assms(1,3) have "rev s \<noteq> []" and "\<not> isSpace (hd (rev s))"
    by (simp_all add: hd_rev)
  then have b: "dropWhile isSpace (rev s) = rev s"
    by (cases "rev s") simp_all
  show ?thesis by (simp add: trim_def a b)
qed

lemma digit_not_space: "m < 10 \<Longrightarrow> \<not> isSpace (char_of (48 + m :: nat))"
  by (auto simp: isSpace_def)

lemma showNat_hd: "showNat n \<noteq> [] \<and> \<not> isSpace (hd (showNat n))"
proof (induction n rule: showNat.induct)
  case (1 n)
  show ?case
  proof (cases "n < 10")
    case True
    then show ?thesis by (simp add: showNat.simps[of n] digit_not_space)
  next
    case False
    with 1 show ?thesis by (simp add: showNat.simps[of n])
  qed
qed

lemma trim_version: "trim (showNat n @ ''.0'') = showNat n @ ''.0''"
proof (rule trim_id)
  show "showNat n @ ''.0'' \<noteq> []" by simp
  show "\<not> isSpace (hd (showNat n @ ''.0''))" using showNat_hd[of n] by simp
  show "\<not> isSpace (last (showNat n @ ''.0''))" by (simp add: isSpace_def)
qed

lemma trim_literals: "trim ''1.0'' = ''1.0''" "trim ''Current'' = ''Current''"
  by code_simp+

lemma createFile_version:
  "version (fst (createFile store now d)) = trim (version (fst (handleFileVersioning store now d)))
   \<and> status (fst (createFile store now d)) = trim (status (fst (handleFileVersioning store now d)))
   \<and> snd (snd (createFile store now d)) = snd (handleFileVersioning store now d)
   \<and> deletionStatus (fst (createFile store now d)) = Active"
proof -
  have v: "version (fst (handleFileVersioning store now d)) \<noteq> []"
    and s: "status (fst (handleFileVersioning store now d)) \<noteq> []"
    by (auto simp: handleFileVersioning_def Let_def)
  show ?thesis
    using v s by (simp add: createFile_def Let_def split_beta)
qed

lemma createFile_numbering:
  assumes "originalName d \<noteq> []"
    and "projectId d = Some p" and "p \<noteq> 0" and "taskId d = Some t" and "t \<noteq> 0"
    and "parentFolderId d = Some fo" and "fo \<noteq> []" and "fo \<noteq> ''undefined''"
    and "\<forall>f \<in> set store. sameLineage d f \<longrightarrow> deletionStatus f \<noteq> PermanentlyDeleted"
  shows "version (fst (createFile store now d))
           = (if filter (\<lambda>f. sameLineage d f \<and> deletionStatus f = Active) store = [] then ''1.0''
              else showNat (length (filter (\<lambda>f. sameLineage d f \<and> deletionStatus f = Active) store) + 1)
                   @ ''.0'')
       \<and> status (fst (createFile store now d)) = ''Current''
       \<and> deletionStatus (fst (createFile store now d)) = Active
       \<and> snd (snd (createFile store now d))
           = map fileId (filter (\<lambda>f. sameLineage d f \<and> deletionStatus f = Active) store)"
  using handleFileVersioning_numbering[OF assms, of now] createFile_version[of store now d]
  by (simp add: trim_version trim_literals)

text \<open>
  The background task marks exactly the queued records whose store call does not throw;
  a throw changes nothing else.
\<close>

lemma updateFileStatus_map:
  "updateFileStatus sendFails store now i st
   = map (\<lambda>f. if fileId f = i \<and> \<not> sendFails i then f\<lparr>status := st, updatedAt := now\<rparr> else f) store"
  by (simp add: updateFileStatus_def)

lemma supersedeInBackground_map:
  "supersedeInBackground sendFails store now ids
   = map (\<lambda>f. if fileId f \<in> set ids \<and> \<not> sendFails (fileId f)
              then f\<lparr>status := ''Superseded'', updatedAt := now\<rparr> else f) store"
proof (induction ids arbitrary: store)
  case Nil
  then show ?case by simp
next
  case (Cons i ids)
  have "supersedeInBackground sendFails store now (i # ids)
        = map (\<lambda>f. if fileId f \<in> set ids \<and> \<not> sendFails (fileId f)
                    then f\<lparr>status := ''Superseded'', updatedAt := now\<rparr> else f)
            (map (\<lambda>f. if fileId f = i \<and> \<not> sendFails i
                       then f\<lparr>status := ''Superseded'', updatedAt := now\<rparr> else f) store)"
    by (simp only: supersedeInBackground.simps Cons.IH updateFileStatus_map)
  also have "\<dots> = map (\<lambda>f. if fileId f \<in> set (i # ids) \<and> \<not> sendFails (fileId f)
                    then f\<lparr>status := ''Superseded'', updatedAt := now\<rparr> else f) store"
    unfolding map_map by (rule map_cong[OF refl]) auto
  finally show ?case .
qed

lemma mset_insertBy: "mset (insertBy c x ys) = add_mset x (mset ys)"
  by (induction ys) simp_all

lemma mset_sortBy: "mset (sortBy c xs) = mset xs"
  by (induction xs) (simp_all add: sortBy_def mset_insertBy)

lemma set_insertBy: "set (insertBy c x ys) = insert x (set ys)"
  by (induction ys) auto

lemma sorted_insertBy:
  assumes tot: "\<forall>a \<in> S. \<forall>b \<in> S. c a b \<le> 0 \<or> c b a \<le> 0"
    and tr: "\<forall>a \<in> S. \<forall>b \<in> S. \<forall>d \<in> S. c a b \<le> 0 \<longrightarrow> c b d \<le> 0 \<longrightarrow> c a d \<le> 0"
    and x: "x \<in> S"
  shows "set ys \<subseteq> S \<Longrightarrow> sorted_wrt (\<lambda>a b. c a b \<le> 0) ys
         \<Longrightarrow> sorted_wrt (\<lambda>a b. c a b \<le> 0) (insertBy c x ys)"
proof (induction ys)
  case Nil
  then show ?case by simp
next
  case (Cons y ys)
  from Cons.prems have y: "y \<in> S" and ys: "set ys \<subseteq> S"
    and below: "\<forall>z \<in> set ys. c y z \<le> 0" and sorted: "sorted_wrt (\<lambda>a b. c a b \<le> 0) ys"
    by simp_all
  show ?case
  proof (cases "c x y \<le> 0")
    case True
    have "\<forall>z \<in> set ys. c x z \<le> 0"
    proof
      fix z assume z: "z \<in> set ys"
      with below have "c y z \<le> 0" by blast
      moreover from z ys have "z \<in> S" by blast
      ultimately show "c x z \<le> 0" using tr x y True by blast
    qed
    with True below sorted show ?thesis by simp
  next
    case False
    with tot x y have yx: "c y x \<le> 0" by blast
    have ih: "sorted_wrt (\<lambda>a b. c a b \<le> 0) (insertBy c x ys)"
      by (rule Cons.IH[OF ys sorted])
    from below yx have "\<forall>w \<in> set (insertBy c x ys). c y w \<le> 0"
      by (simp add: set_insertBy)
    with False ih show ?thesis by simp
  qed
qed

lemma set_sortBy: "set (sortBy c xs) = set xs"
  by (induction xs) (simp_all add: sortBy_def set_insertBy)

lemma sorted_sortBy:
  assumes tot: "\<forall>a \<in> S. \<forall>b \<in> S. c a b \<le> 0 \<or> c b a \<le> 0"
    and tr: "\<forall>a \<in> S. \<forall>b \<in> S. \<forall>d \<in> S. c a b \<le> 0 \<longrightarrow> c b d \<le> 0 \<longrightarrow> c a d \<le> 0"
  shows "set xs \<subseteq> S \<Longrightarrow> sorted_wrt (\<lambda>a b. c a b \<le> 0) (sortBy c xs)"
proof (induction xs)
  case Nil
  then show ?case by (simp add: sortBy_def)
next
  case (Cons x xs)
  from Cons.prems have x: "x \<in> S" and xs: "set xs \<subseteq> S" by simp_all
  have ih: "sorted_wrt (\<lambda>a b. c a b \<le> 0) (sortBy c xs)"
    by (rule Cons.IH[OF xs])
  have sub: "set (sortBy c xs) \<subseteq> S" using xs by (simp add: set_sortBy)
  have "sortBy c (x # xs) = insertBy c x (sortBy c xs)"
    by (simp add: sortBy_def)
  with sorted_insertBy[OF tot tr x sub ih] show ?case by simp
qed

lemma differenceSign_le:
  "x \<noteq> NaN \<Longrightarrow> y \<noteq> NaN \<Longrightarrow> differenceSign x y \<le> 0 \<longleftrightarrow> numLe x y"
  by (cases x; cases y) simp_all

lemma numLe_total: "x \<noteq> NaN \<Longrightarrow> y \<noteq> NaN \<Longrightarrow> numLe x y \<or> numLe y x"
  by (cases x; cases y) auto

lemma numLe_trans: "numLe x y \<Longrightarrow> numLe y z \<Longrightarrow> numLe x z"
  by (cases x; cases y; cases z) simp_all

lemma compareVersions_le:
  assumes "versionNumber pf a \<noteq> NaN" and "versionNumber pf b \<noteq> NaN"
  shows "compareVersions pf a b \<le> 0 \<longleftrightarrow> numLe (versionNumber pf b) (versionNumber pf a)"
  using assms by (simp add: compareVersions_def differenceSign_le)

lemma getFileVersions_members:
  "mset (getFileVersions pf store oname pid tid arg)
     = (if trim oname = [] then {#}
        else mset (filter (folderMatches arg)
               (filter (\<lambda>f. case tid of None \<Rightarrow> True | Some t \<Rightarrow> numberOrZero (taskId f) = t)
                 (filter (\<lambda>f. case pid of None \<Rightarrow> True | Some p \<Rightarrow> numberOrZero (projectId f) = p)
                   (filter (\<lambda>f. deletionStatus f \<noteq> Deleted)
                     (map versionView (filter (\<lambda>f. originalName f = trim oname) store)))))))"
  by (simp add: getFileVersions_def mset_sortBy)

lemma getFileVersions_subset:
  "set (getFileVersions pf store oname pid tid arg)
     \<subseteq> versionView ` {f \<in> set store. originalName f = trim oname}"
  by (auto simp: getFileVersions_def set_sortBy)

lemma getFileVersions_sorted:
  assumes "\<forall>f \<in> set store. originalName f = trim oname \<longrightarrow> versionNumber pf (versionView f) \<noteq> NaN"
  shows "sorted_wrt (\<lambda>a b. numLe (versionNumber pf b) (versionNumber pf a))
           (getFileVersions pf store oname pid tid arg)"
proof (cases "trim oname = []")
  case True
  then show ?thesis by (simp add: getFileVersions_def)
next
  case False
  define S where "S = versionView ` {f \<in> set store. originalName f = trim oname}"
  have parsed: "\<forall>a \<in> S. versionNumber pf a \<noteq> NaN"
    using assms unfolding S_def by auto
  have tot: "\<forall>a \<in> S. \<forall>b \<in> S. compareVersions pf a b \<le> 0 \<or> compareVersions pf b a \<le> 0"
  proof (intro ballI)
    fix a b assume "a \<in> S" "b \<in> S"
    with parsed have n: "versionNumber pf a \<noteq> NaN" "versionNumber pf b \<noteq> NaN"
      by blast+
    then show "compareVersions pf a b \<le> 0 \<or> compareVersions pf b a \<le> 0"
      using numLe_total[OF n] by (simp add: compareVersions_le) blast
  qed
  have tr: "\<forall>a \<in> S. \<forall>b \<in> S. \<forall>d \<in> S.
              compareVersions pf a b \<le> 0 \<longrightarrow> compareVersions pf b d \<le> 0
              \<longrightarrow> compareVersions pf a d \<le> 0"
  proof (intro ballI impI)
    fix a b d assume "a \<in> S" "b \<in> S" "d \<in> S"
      and le: "compareVersions pf a b \<le> 0" "compareVersions pf b d \<le> 0"
    with parsed have n: "versionNumber pf a \<noteq> NaN" "versionNumber pf b \<noteq> NaN"
        "versionNumber pf d \<noteq> NaN"
      by blast+
    from le have "numLe (versionNumber pf b) (versionNumber pf a)"
        "numLe (versionNumber pf d) (versionNumber pf b)"
      using n by (simp_all add: compareVersions_le)
    then have "numLe (versionNumber pf d) (versionNumber pf a)"
      using numLe_trans by blast
    then show "compareVersions pf a d \<le> 0"
      using n by (simp add: compareVersions_le)
  qed
  let ?xs = "filter (folderMatches arg)
         (filter (\<lambda>f. case tid of None \<Rightarrow> True | Some t \<Rightarrow> numberOrZero (taskId f) = t)
           (filter (\<lambda>f. case pid of None \<Rightarrow> True | Some p \<Rightarrow> numberOrZero (projectId f) = p)
             (filter (\<lambda>f. deletionStatus f \<noteq> Deleted)
               (map versionView (filter (\<lambda>f. originalName f = trim oname) store)))))"
  have g: "getFileVersions pf store oname pid tid arg = sortBy (compareVersions pf) ?xs"
    using False by (simp add: getFileVersions_def)
  have sub: "set ?xs \<subseteq> S" unfolding S_def by auto
  have sorted: "sorted_wrt (\<lambda>a b. compareVersions pf a b \<le> 0) (sortBy (compareVersions pf) ?xs)"
    by (rule sorted_sortBy[OF tot tr sub])
  have rel: "numLe (versionNumber pf b) (versionNumber pf a)"
    if "a \<in> set (sortBy (compareVersions pf) ?xs)" "b \<in> set (sortBy (compareVersions pf) ?xs)"
      "compareVersions pf a b \<le> 0" for a b
  proof -
    from that(1,2) sub have "a \<in> S" "b \<in> S" by (auto simp: set_sortBy)
    with parsed have "versionNumber pf a \<noteq> NaN" "versionNumber pf b \<noteq> NaN"
      by blast+
    with that(3) show ?thesis by (simp add: compareVersions_le)
  qed
  show ?thesis
    unfolding g by (rule sorted_wrt_mono_rel[OF _ sorted]) (rule rel)
qed

subsection \<open>Numbering and listing\<close>

lemma getFilesByOriginalName_upload:
  "getFilesByOriginalName store (originalName d) (truthyNumber (projectId d))
       (truthyNumber (taskId d)) (truthyString (parentFolderId d))
   = filter (\<lambda>f. originalName f = originalName d \<and> scopeMatches d f \<and> deletionStatus f \<noteq> Deleted)
       store"
  unfolding getFilesByOriginalName_def scopeMatches_def filter_filter
  by (rule filter_cong[OF refl]) blast

lemma handleFileVersioning_upload:
  assumes "originalName d \<noteq> []"
  shows "handleFileVersioning store now d
    = (let d' = d\<lparr> version := (if version d = [] then ''1.0'' else version d),
                    status := (if status d = [] then ''Current'' else status d) \<rparr>;
           act = filter (\<lambda>f. originalName f = originalName d \<and> scopeMatches d f
                              \<and> deletionStatus f \<noteq> Deleted) store
       in if act = [] then (d'\<lparr>version := ''1.0'', status := ''Current'', createdAt := now\<rparr>, [])
          else (d'\<lparr>version := showNat (length act + 1) @ ''.0'', status := ''Current''\<rparr>,
                map fileId act))"
proof -
  let ?d = "d\<lparr> version := (if version d = [] then ''1.0'' else version d),
               status := (if status d = [] then ''Current'' else status d) \<rparr>"
  let ?act = "filter (\<lambda>f. originalName f = originalName d \<and> scopeMatches d f
                              \<and> deletionStatus f \<noteq> Deleted) store"
  have sm: "scopeMatches ?d = scopeMatches d"
    by (rule ext) (simp add: scopeMatches_def)
  have g: "getFilesByOriginalName store (originalName ?d) (truthyNumber (projectId ?d))
             (truthyNumber (taskId ?d)) (truthyString (parentFolderId ?d)) = ?act"
    using getFilesByOriginalName_upload[of store ?d] by (simp add: sm)
  have a: "filter (\<lambda>f. deletionStatus f \<noteq> Deleted) ?act = ?act"
    by (induction store) auto
  show ?thesis
    unfolding handleFileVersioning_def Let_def g a using assms by simp
qed

text \<open>
  Claim C1 (fresh-container rule), as the code has it. The lineage of an upload is
  every stored record with its original filename that matches each scope component the
  upload gives (a component it leaves out matches everything). When every record of that
  lineage is soft-deleted, the new record has version "1.0", status Current and is
  active, whatever the number and the version labels of the soft-deleted records, and
  nothing is queued for the background task.
\<close>

theorem fresh_container_rule:
  assumes "originalName d \<noteq> []"
    and "\<forall>f \<in> set store. originalName f = originalName d \<and> scopeMatches d f
           \<longrightarrow> deletionStatus f = Deleted"
  shows "version (fst (createFile store now d)) = ''1.0''
       \<and> status (fst (createFile store now d)) = ''Current''
       \<and> deletionStatus (fst (createFile store now d)) = Active
       \<and> snd (snd (createFile store now d)) = []"
proof -
  have "filter (\<lambda>f. originalName f = originalName d \<and> scopeMatches d f
                              \<and> deletionStatus f \<noteq> Deleted) store = []"
    using assms(2) by (auto simp: filter_empty_conv)
  then have "handleFileVersioning store now d
      = (d\<lparr> version := ''1.0'', status := ''Current'', createdAt := now \<rparr>, [])"
    unfolding handleFileVersioning_upload[OF assms(1)] by (simp add: Let_def)
  then show ?thesis
    using createFile_version[of store now d] by (simp add: trim_literals)
qed

text \<open>
  Claim C4 (version numbering), as the code has it, for the lineage of the upload as in
  C1 and a lineage with no purged record. When the lineage has active members, \<open>act\<close>,
  the new record has version "{count+1}.0" with \<open>count\<close> their number, status Current and
  is active; their ids are queued, and the background task, run on the store the upload
  left, marks exactly the queued records whose store call does not throw as Superseded.
  The upload's result does not depend on those calls. (When the task runs is a matter
  of scheduling, which the model leaves out.)
\<close>

theorem version_numbering:
  assumes "originalName d \<noteq> []"
    and "\<forall>f \<in> set store. originalName f = originalName d \<and> scopeMatches d f
           \<longrightarrow> deletionStatus f \<noteq> PermanentlyDeleted"
    and "act = filter (\<lambda>f. originalName f = originalName d \<and> scopeMatches d f
                            \<and> deletionStatus f = Active) store"
    and "act \<noteq> []"
  shows "version (fst (createFile store now d)) = showNat (length act + 1) @ ''.0''
       \<and> status (fst (createFile store now d)) = ''Current''
       \<and> deletionStatus (fst (createFile store now d)) = Active
       \<and> snd (snd (createFile store now d)) = map fileId act
       \<and> (\<forall>sendFails t.
            supersedeInBackground sendFails (fst (snd (createFile store now d))) t
              (snd (snd (createFile store now d)))
            = map (\<lambda>f. if fileId f \<in> set (map fileId act) \<and> \<not> sendFails (fileId f)
                        then f\<lparr>status := ''Superseded'', updatedAt := t\<rparr> else f)
                (fst (snd (createFile store now d))))"
proof -
  have "filter (\<lambda>f. originalName f = originalName d \<and> scopeMatches d f
                              \<and> deletionStatus f \<noteq> Deleted) store = act"
    unfolding assms(3)
  proof (rule filter_cong[OF refl])
    fix f assume "f \<in> set store"
    with assms(2) have "originalName f = originalName d \<and> scopeMatches d f
        \<longrightarrow> deletionStatus f \<noteq> PermanentlyDeleted" by blast
    then show "(originalName f = originalName d \<and> scopeMatches d f \<and> deletionStatus f \<noteq> Deleted)
             = (originalName f = originalName d \<and> scopeMatches d f \<and> deletionStatus f = Active)"
      by (cases "deletionStatus f") auto
  qed
  then have h: "handleFileVersioning store now d
      = (d\<lparr> version := showNat (length act + 1) @ ''.0'', status := ''Current'' \<rparr>, map fileId act)"
    unfolding handleFileVersioning_upload[OF assms(1)] using assms(4) by (simp add: Let_def)
  have a: "version (fst (createFile store now d)) = showNat (length act + 1) @ ''.0''
       \<and> status (fst (createFile store now d)) = ''Current''
       \<and> deletionStatus (fst (createFile store now d)) = Active
       \<and> snd (snd (createFile store now d)) = map fileId act"
    using createFile_version[of store now d] unfolding h by (simp add: trim_literals trim_version)
  then have p: "snd (snd (createFile store now d)) = map fileId act" by simp
  show ?thesis
    using a unfolding p supersedeInBackground_map by simp
qed


text \<open>
  Claim C1 as stated fails for an upload that gives no project, task or folder: no stored
  record shares its scope, so its lineage in the glossary's sense is empty, yet the active
  \<open>planV2\<close> of project 7 is counted and the upload is numbered "2.0".
\<close>

theorem fresh_container_counterexample:
  "filter (\<lambda>f. sameLineage rootUpload f) [planV2] = []
   \<and> originalName rootUpload = ''plan.pdf'' \<and> projectId rootUpload = None
   \<and> taskId rootUpload = None \<and> parentFolderId rootUpload = None
   \<and> version (fst (createFile [planV2] 100 rootUpload)) = ''2.0''
   \<and> snd (snd (createFile [planV2] 100 rootUpload)) = [fileId planV2]"
  by code_simp

text \<open>
  Scenario B of the specification: the lineage holds a soft-deleted version "11.0" (and
  another project holds an active file of the same name); the upload is numbered "1.0".
\<close>

theorem fresh_container_rule_witness:
  "version trashedPlan = ''11.0'' \<and> deletionStatus trashedPlan = Deleted
   \<and> sameLineage planUpload trashedPlan
   \<and> version (fst (createFile [trashedPlan, otherProjectPlan] 100 planUpload)) = ''1.0''
   \<and> status (fst (createFile [trashedPlan, otherProjectPlan] 100 planUpload)) = ''Current''
   \<and> deletionStatus (fst (createFile [trashedPlan, otherProjectPlan] 100 planUpload)) = Active
   \<and> snd (snd (createFile [trashedPlan, otherProjectPlan] 100 planUpload)) = []"
proof -
  have h1: "originalName planUpload \<noteq> []" by code_simp
  have h2: "\<forall>f \<in> set [trashedPlan, otherProjectPlan].
              originalName f = originalName planUpload \<and> scopeMatches planUpload f
              \<longrightarrow> deletionStatus f = Deleted"
    by code_simp
  have e: "version trashedPlan = ''11.0'' \<and> deletionStatus trashedPlan = Deleted
      \<and> sameLineage planUpload trashedPlan"
    by code_simp
  show ?thesis
    using fresh_container_rule[OF h1 h2, of 100] e by simp
qed

text \<open>
  Claim C4 as stated fails for an upload that gives no project, task or folder: its
  lineage in the glossary's sense has one active member, \<open>rootFile\<close>, but the active
  \<open>planV1\<close> of project 7 is counted with it, the upload is numbered "3.0" and \<open>planV1\<close> is
  queued to be marked superseded.
\<close>

theorem version_numbering_counterexample:
  "filter (\<lambda>f. sameLineage rootUpload f \<and> deletionStatus f = Active) [planV1, rootFile] = [rootFile]
   \<and> version (fst (createFile [planV1, rootFile] 100 rootUpload)) = ''3.0''
   \<and> snd (snd (createFile [planV1, rootFile] 100 rootUpload)) = [fileId planV1, fileId rootFile]"
  by code_simp

text \<open>
  Scenario A of the specification: one active version and one soft-deleted one; the
  upload is numbered "2.0", the active version is marked Superseded, and when every
  background call throws the store stays as the upload left it.
\<close>

theorem version_numbering_witness:
  "version (fst (createFile [planV1, trashedPlan] 100 planUpload)) = ''2.0''
   \<and> status (fst (createFile [planV1, trashedPlan] 100 planUpload)) = ''Current''
   \<and> snd (snd (createFile [planV1, trashedPlan] 100 planUpload)) = [1]
   \<and> map status (supersedeInBackground (\<lambda>i. False)
                    (fst (snd (createFile [planV1, trashedPlan] 100 planUpload))) 101
                    (snd (snd (createFile [planV1, trashedPlan] 100 planUpload))))
       = [''Superseded'', status trashedPlan, ''Current'']
   \<and> supersedeInBackground (\<lambda>i. True)
        (fst (snd (createFile [planV1, trashedPlan] 100 planUpload))) 101
        (snd (snd (createFile [planV1, trashedPlan] 100 planUpload)))
       = fst (snd (createFile [planV1, trashedPlan] 100 planUpload))"
proof -
  have h1: "originalName planUpload \<noteq> []" by code_simp
  have h2: "\<forall>f \<in> set [planV1, trashedPlan].
              originalName f = originalName planUpload \<and> scopeMatches planUpload f
              \<longrightarrow> deletionStatus f \<noteq> PermanentlyDeleted"
    by code_simp
  have h3: "[planV1] = filter (\<lambda>f. originalName f = originalName planUpload
                \<and> scopeMatches planUpload f \<and> deletionStatus f = Active) [planV1, trashedPlan]"
    by code_simp
  have h4: "[planV1] \<noteq> []" by simp
  have two: "showNat (length [planV1] + 1) @ ''.0'' = ''2.0''" by code_simp
  have st: "fst (snd (createFile [planV1, trashedPlan] 100 planUpload))
      = [planV1, trashedPlan,
         planV1\<lparr>fileId := 100, version := ''2.0'', status := ''Current'', updatedAt := 100,
                createdAt := 100\<rparr>]"
    by code_simp
  have ids: "fileId planV1 = 1" "fileId trashedPlan = 11" by code_simp+
  note T = version_numbering[OF h1 h2 h3 h4, of 100, unfolded two]
  from T have a: "version (fst (createFile [planV1, trashedPlan] 100 planUpload)) = ''2.0''
      \<and> status (fst (createFile [planV1, trashedPlan] 100 planUpload)) = ''Current''
      \<and> snd (snd (createFile [planV1, trashedPlan] 100 planUpload)) = [1]"
    by (simp add: ids)
  from T have b: "supersedeInBackground sendFails
        (fst (snd (createFile [planV1, trashedPlan] 100 planUpload))) 101
        (snd (snd (createFile [planV1, trashedPlan] 100 planUpload)))
      = map (\<lambda>f. if fileId f \<in> set (map fileId [planV1]) \<and> \<not> sendFails (fileId f)
                  then f\<lparr>status := ''Superseded'', updatedAt := 101\<rparr> else f)
          (fst (snd (createFile [planV1, trashedPlan] 100 planUpload)))" for sendFails
    by blast
  have c: "map status (supersedeInBackground (\<lambda>i. False)
                    (fst (snd (createFile [planV1, trashedPlan] 100 planUpload))) 101
                    (snd (snd (createFile [planV1, trashedPlan] 100 planUpload))))
       = [''Superseded'', status trashedPlan, ''Current'']"
    by (simp only: b) (simp add: st ids)
  have d: "supersedeInBackground (\<lambda>i. True)
        (fst (snd (createFile [planV1, trashedPlan] 100 planUpload))) 101
        (snd (snd (createFile [planV1, trashedPlan] 100 planUpload)))
       = fst (snd (createFile [planV1, trashedPlan] 100 planUpload))"
    by (simp only: b) simp
  show ?thesis
    using a c d by blast
qed


text \<open>
  Claim C9 (list versions), as the code has it, for a non-empty filename, no purged record
  of that filename and version labels from which \<open>parseFloat\<close> reads a number. Whatever
  \<open>parseFloat\<close> reads, the listing is sorted by the number it reads from the version label
  (less a first "v"), largest first, and holds exactly the active records of that filename
  that match each scope argument given (an argument left \<open>undefined\<close> matches everything),
  Current and Superseded alike, each as \<open>getFileVersions\<close> renders it; soft-deleted records
  are not in it.
\<close>

theorem list_versions_contract:
  assumes "trim oname \<noteq> []"
    and "\<forall>f \<in> set store. originalName f = trim oname
           \<longrightarrow> deletionStatus f \<noteq> PermanentlyDeleted \<and> versionNumber parseFloat (versionView f) \<noteq> NaN"
  shows "sorted_wrt (\<lambda>a b. numLe (versionNumber parseFloat b) (versionNumber parseFloat a))
           (getFileVersions parseFloat store oname pid tid arg)
       \<and> mset (getFileVersions parseFloat store oname pid tid arg)
         = mset (filter (\<lambda>v. originalName v = trim oname \<and> deletionStatus v = Active
                      \<and> (case pid of None \<Rightarrow> True | Some p \<Rightarrow> numberOrZero (projectId v) = p)
                      \<and> (case tid of None \<Rightarrow> True | Some t \<Rightarrow> numberOrZero (taskId v) = t)
                      \<and> folderMatches arg v)
                   (map versionView store))"
proof
  from assms(2) have "\<forall>f \<in> set store. originalName f = trim oname
      \<longrightarrow> versionNumber parseFloat (versionView f) \<noteq> NaN" by blast
  then show "sorted_wrt (\<lambda>a b. numLe (versionNumber parseFloat b) (versionNumber parseFloat a))
           (getFileVersions parseFloat store oname pid tid arg)"
    by (rule getFileVersions_sorted)
next
  let ?P = "\<lambda>v. (case pid of None \<Rightarrow> True | Some p \<Rightarrow> numberOrZero (projectId v) = p)"
  let ?T = "\<lambda>v. (case tid of None \<Rightarrow> True | Some t \<Rightarrow> numberOrZero (taskId v) = t)"
  have nm: "map versionView (filter (\<lambda>f. originalName f = trim oname) store)
            = filter (\<lambda>v. originalName v = trim oname) (map versionView store)"
    by (simp add: filter_map comp_def versionView_def)
  have "filter (folderMatches arg) (filter ?T (filter ?P (filter (\<lambda>f. deletionStatus f \<noteq> Deleted)
          (map versionView (filter (\<lambda>f. originalName f = trim oname) store)))))
        = filter (\<lambda>v. originalName v = trim oname \<and> deletionStatus v \<noteq> Deleted \<and> ?P v \<and> ?T v
                      \<and> folderMatches arg v) (map versionView store)"
    unfolding nm filter_filter by (rule filter_cong[OF refl]) blast
  also have "\<dots> = filter (\<lambda>v. originalName v = trim oname \<and> deletionStatus v = Active \<and> ?P v \<and> ?T v
                      \<and> folderMatches arg v) (map versionView store)"
  proof (rule filter_cong[OF refl])
    fix v assume "v \<in> set (map versionView store)"
    then obtain f where f: "f \<in> set store" and v: "v = versionView f" by auto
    have o: "originalName v = originalName f" "deletionStatus v = deletionStatus f"
      unfolding v by (simp_all add: versionView_def)
    have "originalName v = trim oname \<longrightarrow> deletionStatus v \<noteq> PermanentlyDeleted"
      using assms(2) f o by auto
    then have "originalName v = trim oname
        \<longrightarrow> (deletionStatus v \<noteq> Deleted \<longleftrightarrow> deletionStatus v = Active)"
      by (cases "deletionStatus v") simp_all
    then show "(originalName v = trim oname \<and> deletionStatus v \<noteq> Deleted \<and> ?P v \<and> ?T v
                      \<and> folderMatches arg v)
             = (originalName v = trim oname \<and> deletionStatus v = Active \<and> ?P v \<and> ?T v
                      \<and> folderMatches arg v)"
      by blast
  qed
  finally show "mset (getFileVersions parseFloat store oname pid tid arg)
         = mset (filter (\<lambda>v. originalName v = trim oname \<and> deletionStatus v = Active
                      \<and> ?P v \<and> ?T v \<and> folderMatches arg v)
                   (map versionView store))"
    using assms(1) by (simp add: getFileVersions_members)
qed

text \<open>
  Claim C9 as stated fails for a lineage without a project: the query for \<open>rootFile\<close>'s
  lineage (no project, no task, root folder) cannot name "no project", and the listing
  holds \<open>otherRootFile\<close> of project 8 as well.
\<close>

theorem list_versions_counterexample:
  "filter (\<lambda>f. sameLineage rootFile f \<and> deletionStatus f = Active) [rootFile, otherRootFile]
     = [rootFile]
   \<and> map fileId (getFileVersions readDecimal [rootFile, otherRootFile] ''plan.pdf'' None None
                   FolderNull)
     = [fileId otherRootFile, fileId rootFile]
   \<and> projectId rootFile = None \<and> projectId otherRootFile = Some 8"
  by code_simp

text \<open>
  The listing of \<open>plan.pdf\<close> with versions "1.0", "10.0", "2.0" and a soft-deleted "11.0",
  with the labels read as decimals: "10.0" comes before "2.0", the soft-deleted record is
  left out.
\<close>

theorem list_versions_contract_witness:
  "sorted_wrt (\<lambda>a b. numLe (versionNumber readDecimal b) (versionNumber readDecimal a))
     (getFileVersions readDecimal [planV1, planV10, trashedPlan, planV2] ''plan.pdf'' (Some 7)
        (Some 3) (FolderId ''F1''))
   \<and> getFileVersions readDecimal [planV1, planV10, trashedPlan, planV2] ''plan.pdf'' (Some 7)
        (Some 3) (FolderId ''F1'')
     = [planV10, planV2, planV1]
   \<and> mset [planV10, planV2, planV1] = mset [planV1, planV10, planV2]
   \<and> map version [planV10, planV2, planV1] = [''10.0'', ''2.0'', ''1.0'']
   \<and> map (versionNumber readDecimal) [planV10, planV2, planV1] = [Num 10, Num 2, Num 1]
   \<and> map status [planV10, planV2, planV1] = [''Current'', ''Current'', ''Superseded'']"
proof -
  have h1: "trim ''plan.pdf'' \<noteq> []" by code_simp
  have h2: "\<forall>f \<in> set [planV1, planV10, trashedPlan, planV2]. originalName f = trim ''plan.pdf''
           \<longrightarrow> deletionStatus f \<noteq> PermanentlyDeleted
               \<and> versionNumber readDecimal (versionView f) \<noteq> NaN"
    by code_simp
  have e: "getFileVersions readDecimal [planV1, planV10, trashedPlan, planV2] ''plan.pdf'' (Some 7)
        (Some 3) (FolderId ''F1'')
     = [planV10, planV2, planV1]"
    by code_simp
  have v: "map version [planV10, planV2, planV1] = [''10.0'', ''2.0'', ''1.0'']
     \<and> map (versionNumber readDecimal) [planV10, planV2, planV1] = [Num 10, Num 2, Num 1]
     \<and> map status [planV10, planV2, planV1] = [''Current'', ''Current'', ''Superseded'']"
    by code_simp
  have m: "mset [planV10, planV2, planV1] = mset [planV1, planV10, planV2]"
    by (simp add: add_mset_commute)
  from list_versions_contract[OF h1 h2, of "Some 7" "Some 3" "FolderId ''F1''"]
  have "sorted_wrt (\<lambda>a b. numLe (versionNumber readDecimal b) (versionNumber readDecimal a))
     (getFileVersions readDecimal [planV1, planV10, trashedPlan, planV2] ''plan.pdf'' (Some 7)
        (Some 3) (FolderId ''F1''))"
    by blast
  then show ?thesis using e v m by simp
qed

section \<open>Properties of the purge sweep\<close>

lemma purge_only_when_due:
  assumes "purge now r \<noteq> r"
  shows "deletionStatus r = Deleted \<and> (\<exists>t. scheduledDeletionAt r = Some t \<and> t < now)
         \<and> deletionStatus (purge now r) = PermanentlyDeleted"
  using assms by (auto simp: purge_def purgeDue_def split: option.splits if_splits)

lemma purge_keeps_purged:
  "deletionStatus r = PermanentlyDeleted \<Longrightarrow> purge now r = r"
  by (simp add: purge_def purgeDue_def)

lemma purge_keeps_active:
  "deletionStatus r = Active \<Longrightarrow> purge now r = r"
  by (simp add: purge_def purgeDue_def)

lemma purge_status:
  "deletionStatus (purge now r) = PermanentlyDeleted
   \<longleftrightarrow> deletionStatus r = PermanentlyDeleted
       \<or> (deletionStatus r = Deleted \<and> (\<exists>t. scheduledDeletionAt r = Some t \<and> t < now))"
  by (auto simp: purge_def purgeDue_def split: option.splits)

lemma cleanupExpiredItems_throws:
  "\<exists>e. fst (cleanupExpiredItems rows now) = Inl e"
  by (simp add: cleanupExpiredItems_def)

lemma cleanupExpiredItems_rows:
  "snd (cleanupExpiredItems rows now) = map (purge now) rows"
  by (simp add: cleanupExpiredItems_def)

lemma restoreFile_refuses_purged:
  assumes "getFile store i = Some file" and "deletionStatus file = PermanentlyDeleted"
  shows "restoreFile storage store now (Some i) = (Inl (HttpError 400 ''File is not in trash''), store)"
  using assms by (simp add: restoreFile_def)

subsection \<open>The store of the storage factory holds no purged record\<close>

lemma noPurged_empty: "noPurged []"
  by (simp add: noPurged_def)

lemma putFile_noPurged:
  assumes "noPurged store" and "deletionStatus item \<noteq> PermanentlyDeleted"
  shows "noPurged (putFile store item)"
  using assms by (auto simp: noPurged_def putFile_def)

lemma updateFile_noPurged:
  assumes "updateFile storage store now i g = Inr (f, store')"
    and "noPurged store"
    and "\<And>x. deletionStatus x \<noteq> PermanentlyDeleted \<Longrightarrow> deletionStatus (g x) \<noteq> PermanentlyDeleted"
  shows "noPurged store'"
proof -
  from assms(1) obtain existing where e: "getFile store i = Some existing"
    and st: "store' = putFile store ((g existing)\<lparr>updatedAt := now\<rparr>)"
    by (auto simp: updateFile_def split: if_splits option.splits)
  from e have "existing \<in> set store" by (simp add: getFile_SomeD)
  with assms(2) have "deletionStatus existing \<noteq> PermanentlyDeleted" by (simp add: noPurged_def)
  then have "deletionStatus ((g existing)\<lparr>updatedAt := now\<rparr>) \<noteq> PermanentlyDeleted"
    using assms(3) by simp
  then show ?thesis unfolding st by (rule putFile_noPurged[OF assms(2)])
qed

lemma updateItem_noPurged:
  "noPurged store \<Longrightarrow> noPurged (updateItem store i (trashUpdate u s d p))"
  by (auto simp: noPurged_def updateItem_def trashUpdate_fields)

lemma foldl_updateItem_noPurged:
  "noPurged store
   \<Longrightarrow> noPurged (foldl (\<lambda>s c. updateItem s (fileId c) (trashUpdate u a d p)) store cs)"
  by (induction cs arbitrary: store) (simp_all add: updateItem_noPurged)

lemma moveFileToTrash_noPurged:
  assumes "noPurged store"
  shows "noPurged (snd (moveFileToTrash storage store tSched tDel tUpd userId fileIdNum))"
proof (cases fileIdNum)
  case None
  then show ?thesis using assms by (simp add: moveFileToTrash_def)
next
  case (Some i)
  show ?thesis
  proof (cases "getFile store i")
    case None
    then show ?thesis using assms Some by (simp add: moveFileToTrash_def)
  next
    case (Some found)
    note found = Some
    show ?thesis
    proof (cases "storage = AwsStorage")
      case True
      then show ?thesis
        using \<open>fileIdNum = Some i\<close> found assms
        by (simp add: moveFileToTrash_def Let_def foldl_updateItem_noPurged)
    next
      case False
      show ?thesis
      proof (cases "updateFile storage store tUpd i (trashUpdate userId tSched tDel tUpd)")
        case (Inl e)
        then show ?thesis
          using \<open>fileIdNum = Some i\<close> found False assms by (simp add: moveFileToTrash_def)
      next
        case (Inr r)
        obtain f store' where r: "r = (f, store')" by (cases r)
        have "noPurged store'"
          by (rule updateFile_noPurged[OF Inr[unfolded r] assms]) (simp add: trashUpdate_fields)
        then show ?thesis
          using \<open>fileIdNum = Some i\<close> found False Inr r by (simp add: moveFileToTrash_def)
      qed
    qed
  qed
qed

lemma restoreUpdate_status: "deletionStatus (restoreUpdate file x) = Active"
  by (simp add: restoreUpdate_def Let_def)

lemma restoreFile_noPurged:
  assumes "noPurged store"
  shows "noPurged (snd (restoreFile storage store now fileIdNum))"
proof (cases fileIdNum)
  case None
  then show ?thesis using assms by (simp add: restoreFile_def)
next
  case (Some i)
  show ?thesis
  proof (cases "getFile store i")
    case None
    then show ?thesis using assms Some by (simp add: restoreFile_def)
  next
    case (Some found)
    note found = Some
    show ?thesis
    proof (cases "updateFile storage store now i (restoreUpdate found)")
      case (Inl e)
      then show ?thesis
        using \<open>fileIdNum = Some i\<close> found assms by (simp add: restoreFile_def)
    next
      case (Inr r)
      obtain f store' where r: "r = (f, store')" by (cases r)
      have "noPurged store'"
        by (rule updateFile_noPurged[OF Inr[unfolded r] assms]) (simp add: restoreUpdate_status)
      then show ?thesis
        using \<open>fileIdNum = Some i\<close> found Inr r assms by (simp add: restoreFile_def)
    qed
  qed
qed

lemma createFile_noPurged:
  assumes "noPurged store"
  shows "noPurged (fst (snd (createFile store now fileData)))"
proof -
  obtain d pending where h: "handleFileVersioning store now fileData = (d, pending)"
    by (cases "handleFileVersioning store now fileData")
  show ?thesis
    unfolding createFile_def h by (simp add: Let_def putFile_noPurged[OF assms])
qed

lemma supersedeInBackground_noPurged:
  assumes "noPurged store"
  shows "noPurged (supersedeInBackground sendFails store now ids)"
  using assms unfolding supersedeInBackground_map by (auto simp: noPurged_def)

subsection \<open>Purge monotonicity\<close>

text \<open>
  Claim C5 (purge monotonicity). The status \<open>permanently_deleted\<close> lives in the rows of the
  database, where the sweep writes it; restore and soft-delete work on the store of the
  storage factory. Whatever the operation, a store without a purged record is left
  without one, and restore refuses a purged record of the store, were there one, and
  writes nothing. Whatever the operation, a purged row is left exactly as it was, so
  that running the sweep again on it is a no-op; and a row is purged after the operation
  only if it was purged before, or the operation is the sweep and the row had the status
  \<open>deleted\<close> and a deadline strictly before the sweep's clock. (The sweep never reaches a
  folder: it throws before its statement on the folders is sent.)
\<close>

theorem purge_monotonicity:
  "(noPurged (fileStore s) \<longrightarrow> noPurged (fileStore (perform storage s op)))
   \<and> (\<forall>i found now. getFile (fileStore s) i = Some found
          \<and> deletionStatus found = PermanentlyDeleted
        \<longrightarrow> perform storage s (Restore now (Some i)) = s)
   \<and> length (fileRows (perform storage s op)) = length (fileRows s)
   \<and> (\<forall>k < length (fileRows s).
        (deletionStatus (fileRows s ! k) = PermanentlyDeleted
           \<longrightarrow> fileRows (perform storage s op) ! k = fileRows s ! k)
        \<and> (deletionStatus (fileRows (perform storage s op) ! k) = PermanentlyDeleted
           \<longrightarrow> deletionStatus (fileRows s ! k) = PermanentlyDeleted
               \<or> (\<exists>now t. op = Sweep now \<and> deletionStatus (fileRows s ! k) = Deleted
                     \<and> scheduledDeletionAt (fileRows s ! k) = Some t \<and> t < now)))"
proof -
  have guard: "perform storage s (Restore now (Some i)) = s"
    if "getFile (fileStore s) i = Some found" "deletionStatus found = PermanentlyDeleted"
    for i found now
    using restoreFile_refuses_purged[OF that] by simp
  have guards: "\<forall>i found now. getFile (fileStore s) i = Some found
          \<and> deletionStatus found = PermanentlyDeleted
        \<longrightarrow> perform storage s (Restore now (Some i)) = s"
    by (intro allI impI) (erule conjE, rule guard)
  have kept: "noPurged (fileStore s) \<longrightarrow> noPurged (fileStore (perform storage s op))"
  proof (cases op)
    case (Restore now i)
    then show ?thesis by (simp add: restoreFile_noPurged)
  next
    case (SoftDelete tSched tDel tUpd userId i)
    then show ?thesis by (simp add: moveFileToTrash_noPurged)
  next
    case (Sweep now)
    then show ?thesis by simp
  qed
  have rest: "length (fileRows (perform storage s op)) = length (fileRows s)
   \<and> (\<forall>k < length (fileRows s).
        (deletionStatus (fileRows s ! k) = PermanentlyDeleted
           \<longrightarrow> fileRows (perform storage s op) ! k = fileRows s ! k)
        \<and> (deletionStatus (fileRows (perform storage s op) ! k) = PermanentlyDeleted
           \<longrightarrow> deletionStatus (fileRows s ! k) = PermanentlyDeleted
               \<or> (\<exists>now t. op = Sweep now \<and> deletionStatus (fileRows s ! k) = Deleted
                     \<and> scheduledDeletionAt (fileRows s ! k) = Some t \<and> t < now)))"
  proof (cases op)
    case (Restore now i)
    then show ?thesis by simp
  next
    case (SoftDelete tSched tDel tUpd userId i)
    then show ?thesis by simp
  next
    case (Sweep now)
    have rows: "fileRows (perform storage s op) = map (purge now) (fileRows s)"
      unfolding Sweep by (simp add: cleanupExpiredItems_rows)
    have "deletionStatus (fileRows s ! k) = PermanentlyDeleted
            \<longrightarrow> map (purge now) (fileRows s) ! k = fileRows s ! k"
      if "k < length (fileRows s)" for k
      using that by (simp add: purge_keeps_purged)
    moreover have "deletionStatus (map (purge now) (fileRows s) ! k) = PermanentlyDeleted
            \<longrightarrow> deletionStatus (fileRows s ! k) = PermanentlyDeleted
                \<or> (\<exists>now' t. op = Sweep now' \<and> deletionStatus (fileRows s ! k) = Deleted
                      \<and> scheduledDeletionAt (fileRows s ! k) = Some t \<and> t < now')"
      if "k < length (fileRows s)" for k
      using that unfolding Sweep by (simp add: purge_status)
    ultimately show ?thesis
      unfolding rows by simp
  qed
  show ?thesis by (rule conjI[OF kept conjI[OF guards rest]])
qed

text \<open>
  A sweep at time 2000 over four rows: the row past its deadline is purged, the purged row
  is left as it was, the row whose deadline lies ahead and the active row keep their
  status; the sweep at time 1000, the deadline itself, purges nothing. Soft-deleting
  \<open>plan.pdf\<close> in the store leaves the rows alone and the store without a purged record.
\<close>

theorem purge_monotonicity_witness:
  "noPurged (fileStore exampleStores)
   \<and> noPurged (fileStore (perform AwsStorage exampleStores (SoftDelete 1000 1001 1002 ''u9'' (Some 2))))
   \<and> fileRows (perform AwsStorage exampleStores (SoftDelete 1000 1001 1002 ''u9'' (Some 2)))
     = fileRows exampleStores
   \<and> fileRows (perform AwsStorage exampleStores (Sweep 2000)) ! 1 = purgedPlan
   \<and> map deletionStatus (fileRows (perform AwsStorage exampleStores (Sweep 2000)))
     = [PermanentlyDeleted, PermanentlyDeleted, Deleted, Active]
   \<and> map deletionStatus (fileRows (perform AwsStorage exampleStores (Sweep 1000)))
     = [Deleted, PermanentlyDeleted, Deleted, Active]
   \<and> map scheduledDeletionAt (fileRows exampleStores)
     = [Some 1000, Some 6, Some (50 + sixtyDays), None]"
proof -
  have h: "noPurged (fileStore exampleStores)" by code_simp
  have r: "fileRows exampleStores ! 1 = purgedPlan" "(1 :: nat) < length (fileRows exampleStores)"
    "deletionStatus purgedPlan = PermanentlyDeleted"
    by (simp_all add: exampleStores_def purgedPlan_def)
  have a: "noPurged (fileStore (perform AwsStorage exampleStores
                                  (SoftDelete 1000 1001 1002 ''u9'' (Some 2))))"
    by (rule mp[OF conjunct1[OF purge_monotonicity] h])
  note rows = purge_monotonicity[of exampleStores AwsStorage "Sweep 2000",
      THEN conjunct2, THEN conjunct2, THEN conjunct2, THEN spec, THEN mp, OF r(2), THEN conjunct1]
  have b: "fileRows (perform AwsStorage exampleStores (Sweep 2000)) ! 1 = purgedPlan"
    using rows r(1,3) by (simp only:)
  have c: "fileRows (perform AwsStorage exampleStores (SoftDelete 1000 1001 1002 ''u9'' (Some 2)))
     = fileRows exampleStores"
    by simp
  have d: "map deletionStatus (fileRows (perform AwsStorage exampleStores (Sweep 2000)))
     = [PermanentlyDeleted, PermanentlyDeleted, Deleted, Active]"
    "map deletionStatus (fileRows (perform AwsStorage exampleStores (Sweep 1000)))
     = [Deleted, PermanentlyDeleted, Deleted, Active]"
    "map scheduledDeletionAt (fileRows exampleStores)
     = [Some 1000, Some 6, Some (50 + sixtyDays), None]"
    by code_simp+
  show ?thesis using h a b c d by simp
qed

section \<open>Where the code leaves the specification\<close>

text \<open>
  Claim C6 (folder soft-delete cascade) asks that the folder and every file below it be
  stamped and nothing be removed. The exported \<open>moveFolderToTrash\<close>, the handler of the
  route, deletes the folder's item (and the trash entry it has just written, whose sort
  key holds the folder id too) and stamps no file: the file \<open>plan.pdf\<close> of the folder and
  the subfolder \<open>G2\<close> with its file are left as they were.
\<close>

theorem folder_soft_delete_removes_and_skips:
  "moveFolderToTrash [folderItemF1, folderItemF2, fileItem1, fileItem5] 1000 1001 ''u9'' ''F1''
       ''Drawings''
     = (2, [folderItemF2, fileItem1, fileItem5])
   \<and> SK folderItemF1 = ''FOLDER#F1''
   \<and> itemParentFolderId fileItem1 = Some ''F1'' \<and> deletionStatus fileItem1 = Active
   \<and> itemParentFolderId folderItemF2 = Some ''F1'' \<and> deletionStatus folderItemF2 = Active
   \<and> itemParentFolderId fileItem5 = Some ''G2'' \<and> deletionStatus fileItem5 = Active"
  by code_simp

text \<open>
  The relational variant \<open>moveFolderToTrashOld\<close> writes nothing at all: whatever the rows
  and the folder id, it answers with an error and leaves the rows as they were.
\<close>

lemma moveFolderToTrashOld_writes_nothing:
  "snd (moveFolderToTrashOld rows fid) = rows
   \<and> (\<exists>code msg. fst (moveFolderToTrashOld rows fid) = HttpError code msg \<and> 400 \<le> code)"
  by (simp add: moveFolderToTrashOld_def)

end
